theory Spec2Isabelle
  imports Complex_Main "HOL-Library.Sublist" "HOL-Library.AList"
begin

section \<open>Python values\<close>

text \<open>
  Scenario documents are JSON: every step is a \<^verbatim>\<open>Dict[str, Any]\<close>. A dictionary is an
  association list (Python dictionaries keep insertion order), with \<open>map_of\<close> for lookup
  and \<open>AList.update\<close> for item assignment (an existing key keeps its position, a new key
  goes to the end). Numbers are integers; a character is a code point below 256.
\<close>

datatype pyval = PNone | PBool bool | PInt int | PStr string
  | PList "pyval list" | PDict "(string \<times> pyval) list"

type_synonym pydict = "(string \<times> pyval) list"

text \<open>
  Exceptions are values. \<open>AttributeError t a\<close> is the interpreter's
  \<^verbatim>\<open>'t' object has no attribute 'a'\<close>; the other constructors carry the message.
\<close>

datatype py_error =
    AttributeError string string
  | TypeError string
  | ValueError string
  | KeyError string
  | RuntimeError string
  | AssertionError string
  | TimeoutError string
  | PlaywrightError string

fun truthy :: "pyval \<Rightarrow> bool" where
  "truthy PNone = False"
| "truthy (PBool b) = b"
| "truthy (PInt i) = (i \<noteq> 0)"
| "truthy (PStr s) = (s \<noteq> [])"
| "truthy (PList xs) = (xs \<noteq> [])"
| "truthy (PDict d) = (d \<noteq> [])"

fun type_name :: "pyval \<Rightarrow> string" where
  "type_name PNone = ''NoneType''"
| "type_name (PBool b) = ''bool''"
| "type_name (PInt i) = ''int''"
| "type_name (PStr s) = ''str''"
| "type_name (PList xs) = ''list''"
| "type_name (PDict d) = ''dict''"

definition dict_get :: "pydict \<Rightarrow> string \<Rightarrow> pyval" where
  \<comment> \<open>\<^verbatim>\<open>d.get(k)\<close>\<close>
  "dict_get d k = (case map_of d k of None \<Rightarrow> PNone | Some v \<Rightarrow> v)"

definition dict_get_default :: "pydict \<Rightarrow> string \<Rightarrow> pyval \<Rightarrow> pyval" where
  \<comment> \<open>\<^verbatim>\<open>d.get(k, default)\<close>\<close>
  "dict_get_default d k dflt = (case map_of d k of None \<Rightarrow> dflt | Some v \<Rightarrow> v)"

definition has_key :: "pydict \<Rightarrow> string \<Rightarrow> bool" where
  \<comment> \<open>\<^verbatim>\<open>k in d\<close>\<close>
  "has_key d k = (map_of d k \<noteq> None)"

fun method_get :: "pyval \<Rightarrow> string \<Rightarrow> py_error + pyval" where
  \<comment> \<open>\<^verbatim>\<open>v.get(k)\<close> on a value that need not be a dictionary\<close>
  "method_get (PDict d) k = Inr (dict_get d k)"
| "method_get v k = Inl (AttributeError (type_name v) ''get'')"

subsection \<open>Strings\<close>

definition py_startswith :: "string \<Rightarrow> string \<Rightarrow> bool" where
  "py_startswith s p = prefix p s"

definition py_endswith :: "string \<Rightarrow> string \<Rightarrow> bool" where
  "py_endswith s p = suffix p s"

fun py_contains :: "string \<Rightarrow> string \<Rightarrow> bool" where
  \<comment> \<open>\<^verbatim>\<open>sub in s\<close>\<close>
  "py_contains sub [] = (sub = [])"
| "py_contains sub (c # cs) = (prefix sub (c # cs) \<or> py_contains sub cs)"

definition is_space :: "char \<Rightarrow> bool" where
  \<comment> \<open>\<^verbatim>\<open>str.isspace\<close> on code points below 256\<close>
  "is_space c = (let n = of_char c :: nat in
     (9 \<le> n \<and> n \<le> 13) \<or> (28 \<le> n \<and> n \<le> 32) \<or> n = 133 \<or> n = 160)"

fun split_ws :: "string \<Rightarrow> string \<Rightarrow> string list" where
  "split_ws w [] = (if w = [] then [] else [w])"
| "split_ws w (c # cs) =
     (if is_space c then (if w = [] then split_ws [] cs else w # split_ws [] cs)
      else split_ws (w @ [c]) cs)"

definition py_split :: "string \<Rightarrow> string list" where
  \<comment> \<open>\<^verbatim>\<open>s.split()\<close>: the maximal runs of non-whitespace\<close>
  "py_split s = split_ws [] s"

function py_replace :: "string \<Rightarrow> string \<Rightarrow> string \<Rightarrow> string" where
  \<comment> \<open>\<^verbatim>\<open>s.replace(old, new)\<close> for a non-empty \<open>old\<close>: leftmost occurrences, not overlapping\<close>
  "py_replace old new s =
     (if s = [] \<or> old = [] then s
      else if prefix old s then new @ py_replace old new (drop (length old) s)
      else hd s # py_replace old new (tl s))"
  by pat_completeness auto
termination
  by (relation "measure (\<lambda>(old, new, s). length s)") auto

declare py_replace.simps [simp del]

subsection \<open>Formatting\<close>

text \<open>
  An f-string field \<^verbatim>\<open>{v}\<close> is \<^verbatim>\<open>str(v)\<close>: the string itself for a string, and
  \<^verbatim>\<open>repr(v)\<close> for every other value.
\<close>

definition hex_digit :: "nat \<Rightarrow> char" where
  "hex_digit n = ''0123456789abcdef'' ! (n mod 16)"

fun nat_digits :: "nat \<Rightarrow> string" where
  "nat_digits n = (if n < 10 then [''0123456789'' ! n]
                   else nat_digits (n div 10) @ [''0123456789'' ! (n mod 10)])"

declare nat_digits.simps [simp del]

definition int_str :: "int \<Rightarrow> string" where
  "int_str i = (if i < 0 then CHR ''-'' # nat_digits (nat (- i)) else nat_digits (nat i))"

definition repr_char :: "char \<Rightarrow> char \<Rightarrow> string" where
  "repr_char q c =
    (let n = of_char c :: nat in
     if c = q \<or> c = CHR 0x5C then [CHR 0x5C, c]
     else if c = CHR 0x09 then [CHR 0x5C, CHR ''t'']
     else if c = CHR 0x0A then [CHR 0x5C, CHR ''n'']
     else if c = CHR 0x0D then [CHR 0x5C, CHR ''r'']
     else if n < 32 \<or> (127 \<le> n \<and> n \<le> 160) \<or> n = 173
       then [CHR 0x5C, CHR ''x'', hex_digit (n div 16), hex_digit n]
     else [c])"

definition repr_str :: "string \<Rightarrow> string" where
  "repr_str s =
    (let q = (if CHR 0x27 \<in> set s \<and> CHR 0x22 \<notin> set s then CHR 0x22 else CHR 0x27)
     in q # concat (map (repr_char q) s) @ [q])"

fun join :: "string \<Rightarrow> string list \<Rightarrow> string" where
  "join sep [] = []"
| "join sep [x] = x"
| "join sep (x # y # ys) = x @ sep @ join sep (y # ys)"

fun py_repr :: "pyval \<Rightarrow> string" where
  "py_repr PNone = ''None''"
| "py_repr (PBool b) = (if b then ''True'' else ''False'')"
| "py_repr (PInt i) = int_str i"
| "py_repr (PStr s) = repr_str s"
| "py_repr (PList xs) = ''['' @ join '', '' (map py_repr xs) @ '']''"
| "py_repr (PDict d) =
     ''{'' @ join '', '' (map (\<lambda>kv. repr_str (fst kv) @ '': '' @ py_repr (snd kv)) d) @ ''}''"

fun py_str :: "pyval \<Rightarrow> string" where
  "py_str (PStr s) = s"
| "py_str v = py_repr v"

section \<open>Scenario compiler\<close>

subsection \<open>Selector candidates\<close>

fun unique_loop :: "string list \<Rightarrow> string set \<Rightarrow> string list \<Rightarrow> string list" where
  \<comment> \<open>the loop that removes duplicates: \<open>seen\<close> and \<open>unique_candidates\<close> are its variables\<close>
  "unique_loop [] seen unique_candidates = unique_candidates"
| "unique_loop (c # cs) seen unique_candidates =
     (if c \<notin> seen then unique_loop cs (insert c seen) (unique_candidates @ [c])
      else unique_loop cs seen unique_candidates)"

definition accessible_name_candidates :: "pydict \<Rightarrow> string list" where
  \<comment> \<open>the candidates appended from \<open>role\<close>, \<open>label\<close> and \<open>aria_label\<close>, in this order\<close>
  \<open>accessible_name_candidates step =
    (let role = dict_get step ''role'';
         label = dict_get step ''label'';
         aria_label = dict_get step ''aria_label''
     in (if truthy role then [''role='' @ py_str role] else [])
      @ (if truthy label then [''label='' @ py_str label] else [])
      @ (if truthy aria_label then [''[aria-label="'' @ py_str aria_label @ ''"]''] else []))\<close>

definition text_candidates :: "pydict \<Rightarrow> string list" where
  \<comment> \<open>the two candidates appended from \<open>text\<close>\<close>
  \<open>text_candidates step =
    (let text = dict_get step ''text''
     in if truthy text
        then [''text="'' @ py_str text @ ''"'', ''text=/^'' @ py_str text @ ''$/'']
        else [])\<close>

definition hint_candidates :: "pydict \<Rightarrow> string list" where
  \<comment> \<open>the first priority of the source: role, label and text\<close>
  "hint_candidates step = accessible_name_candidates step @ text_candidates step"

definition simplified_selector :: "string \<Rightarrow> string" where
  "simplified_selector selector =
     py_replace '':nth-of-type(2)'' [] (py_replace '':nth-of-type(1)'' [] selector)"

definition selector_candidates :: "string \<Rightarrow> string list" where
  \<comment> \<open>the candidates appended from a non-empty string \<open>selector\<close>\<close>
  "selector_candidates selector =
    (if py_startswith selector ''#'' \<and> length (py_split selector) = 1 then [selector]
     else if py_startswith selector ''.'' \<and> length (py_split selector) = 1 then [selector]
     else if py_startswith selector ''[data-'' then [selector]
     else (if py_contains '':nth-of-type'' selector
           then (let simplified = simplified_selector selector
                 in if simplified \<noteq> selector then [simplified] else [])
           else [])
          @ [selector])"

definition generate_selector_candidates :: "pydict \<Rightarrow> py_error + string list" where
  "generate_selector_candidates step =
    (let selector = dict_get step ''selector'';
         candidates = hint_candidates step
     in if truthy selector
        then (case selector of
                PStr s \<Rightarrow> Inr (unique_loop (candidates @ selector_candidates s) {} [])
              | _ \<Rightarrow> Inl (AttributeError (type_name selector) ''startswith''))
        else Inr (unique_loop candidates {} []))"

subsection \<open>Success conditions\<close>

definition step_text :: "pydict \<Rightarrow> py_error + pyval" where
  \<comment> \<open>\<^verbatim>\<open>step.get("text") or step.get("params", {}).get("text")\<close>\<close>
  "step_text step =
    (let t = dict_get step ''text''
     in if truthy t then Inr t
        else method_get (dict_get_default step ''params'' (PDict [])) ''text'')"

definition url_changed_condition :: "pyval \<Rightarrow> py_error + pyval list" where
  \<comment> \<open>the condition inferred from the \<open>url\<close> of a following \<open>expect_url\<close> or \<open>go\<close> step\<close>
  "url_changed_condition url =
    (if truthy url
     then (case url of
             PStr u \<Rightarrow>
               Inr [PDict [(''type'', PStr ''url_changed''),
                           (''url'', PStr (if py_endswith u ''*'' then u else u @ ''*'')),
                           (''timeout'', PInt 15000)]]
           | _ \<Rightarrow> Inl (AttributeError (type_name url) ''endswith''))
     else Inr [])"

definition infer_success_conditions :: "pyval list \<Rightarrow> nat \<Rightarrow> py_error + pyval list" where
  "infer_success_conditions steps current_index =
    (case method_get (steps ! current_index) ''type'' of
       Inl e \<Rightarrow> Inl e
     | Inr current_type \<Rightarrow>
         if current_type \<noteq> PStr ''click'' then Inr []
         else if current_index + 1 < length steps
         then (case steps ! (current_index + 1) of
                 PDict next_step \<Rightarrow>
                   (let next_type = dict_get next_step ''type'' in
                    case (if next_type = PStr ''expect_text''
                          then (case step_text next_step of
                                  Inl e \<Rightarrow> Inl e
                                | Inr next_text \<Rightarrow>
                                    Inr (if truthy next_text
                                         then [PDict [(''type'', PStr ''modal_visible''),
                                                      (''text'', next_text),
                                                      (''timeout'', PInt 15000)]]
                                         else []))
                          else Inr []) of
                      Inl e \<Rightarrow> Inl e
                    | Inr conditions \<Rightarrow>
                        if next_type = PStr ''expect_url''
                        then (case url_changed_condition (dict_get next_step ''url'') of
                                Inl e \<Rightarrow> Inl e
                              | Inr c \<Rightarrow> Inr (conditions @ c))
                        else if next_type = PStr ''go''
                        then (case url_changed_condition (dict_get next_step ''url'') of
                                Inl e \<Rightarrow> Inl e
                              | Inr c \<Rightarrow> Inr (conditions @ c))
                        else Inr conditions)
               | v \<Rightarrow> Inl (AttributeError (type_name v) ''get''))
         else Inr [])"

subsection \<open>The compiler\<close>

fun copy_fields :: "string list \<Rightarrow> pydict \<Rightarrow> pydict \<Rightarrow> pydict" where
  \<comment> \<open>\<^verbatim>\<open>for key in [...]: if key in raw_step: compiled_step[key] = raw_step[key]\<close>\<close>
  "copy_fields [] raw_step compiled_step = compiled_step"
| "copy_fields (key # keys) raw_step compiled_step =
     copy_fields keys raw_step
       (case map_of raw_step key of
          Some v \<Rightarrow> AList.update key v compiled_step
        | None \<Rightarrow> compiled_step)"

definition basic_fields :: "string list" where
  "basic_fields = [''type'', ''url'', ''value'', ''delay_ms'', ''delay'', ''frame'', ''popup_url'']"

definition text_selector :: "pyval \<Rightarrow> string" where
  \<comment> \<open>\<^verbatim>\<open>f'text="{text}"'\<close>\<close>
  \<open>text_selector text = ''text="'' @ py_str text @ ''"''\<close>

text \<open>
  What a click step reads from the step after it: \<open>next_text\<close>, \<open>next_selector\<close>,
  \<open>next_step_type\<close>, \<open>skip_next\<close>, and the next step itself (for its \<open>timeout\<close>).
\<close>

definition look_ahead ::
  "pyval list \<Rightarrow> nat \<Rightarrow> py_error + (pyval \<times> pyval \<times> pyval \<times> bool \<times> pydict)" where
  "look_ahead raw_steps i =
    (if i + 1 < length raw_steps
     then (case raw_steps ! (i + 1) of
             PDict next_step \<Rightarrow>
               (let next_step_type = dict_get next_step ''type'' in
                if next_step_type = PStr ''expect_text'' \<or> next_step_type = PStr ''wait_visible''
                then (case step_text next_step of
                        Inl e \<Rightarrow> Inl e
                      | Inr next_text \<Rightarrow>
                          Inr (next_text, dict_get next_step ''selector'', next_step_type,
                               True, next_step))
                else Inr (PNone, PNone, next_step_type, False, next_step))
           | v \<Rightarrow> Inl (AttributeError (type_name v) ''get''))
     else Inr (PNone, PNone, PNone, False, []))"

definition absorbed_conditions :: "pyval \<Rightarrow> pyval \<Rightarrow> pyval \<Rightarrow> bool \<Rightarrow> pydict \<Rightarrow> pyval list" where
  \<comment> \<open>the \<open>element_visible\<close> condition a click takes from the step after it\<close>
  "absorbed_conditions next_text next_selector next_step_type skip_next next_step =
    (if skip_next \<and> truthy next_step_type
     then (if next_step_type = PStr ''expect_text'' \<and> truthy next_text
           then [PDict [(''type'', PStr ''element_visible''), (''text'', next_text),
                        (''timeout'', PInt 15000)]]
           else if next_step_type = PStr ''wait_visible''
           then (if truthy next_text
                 then [PDict [(''type'', PStr ''element_visible''), (''text'', next_text),
                              (''timeout'', dict_get_default next_step ''timeout'' (PInt 15000))]]
                 else if truthy next_selector
                 then [PDict [(''type'', PStr ''element_visible''), (''selector'', next_selector),
                              (''timeout'', dict_get_default next_step ''timeout'' (PInt 15000))]]
                 else [])
           else [])
     else [])"

definition compile_click :: "pyval list \<Rightarrow> nat \<Rightarrow> pydict \<Rightarrow> pydict \<Rightarrow> py_error + pyval list" where
  \<comment> \<open>the \<open>click\<close> branch; the result is what this iteration appends to \<open>compiled_steps\<close>\<close>
  "compile_click raw_steps i raw_step compiled_step =
    (case generate_selector_candidates raw_step of
       Inl e \<Rightarrow> Inl e
     | Inr selectors0 \<Rightarrow>
    (case look_ahead raw_steps i of
       Inl e \<Rightarrow> Inl e
     | Inr (next_text, next_selector, next_step_type, skip_next, next_step) \<Rightarrow>
    (let selectors =
           (if truthy next_text \<and> \<not> list_ex (py_contains ''text='') selectors0
            then text_selector next_text # selectors0 else selectors0);
         compiled1 =
           (if length selectors > 1
            then AList.update ''selectors'' (PList (map PStr selectors)) compiled_step
            else if selectors \<noteq> []
            then AList.update ''selector'' (PStr (hd selectors)) compiled_step
            else AList.update ''selector'' (dict_get raw_step ''selector'') compiled_step)
     in case infer_success_conditions raw_steps i of
          Inl e \<Rightarrow> Inl e
        | Inr inferred \<Rightarrow>
            (let success_conditions = inferred @
                   absorbed_conditions next_text next_selector next_step_type skip_next next_step;
                 compiled2 =
                   (if success_conditions \<noteq> []
                    then AList.update ''success_conditions'' (PList success_conditions) compiled1
                    else compiled1)
             in if skip_next then Inr [PDict compiled2]
                else Inr [PDict compiled2, PDict compiled2]))))"

definition compile_expect_text :: "pydict \<Rightarrow> pydict \<Rightarrow> py_error + pyval list" where
  "compile_expect_text raw_step compiled_step =
    (case step_text raw_step of
       Inl e \<Rightarrow> Inl e
     | Inr text \<Rightarrow>
         (let selector = dict_get raw_step ''selector'' in
          if truthy text
          then (let compiled1 = AList.update ''text'' text compiled_step in
                if truthy selector
                then Inr [PDict (AList.update ''selectors''
                                   (PList [PStr (text_selector text), selector]) compiled1)]
                else Inr [PDict compiled1])
          else Inr [PDict (AList.update ''selector'' selector compiled_step)]))"

definition set_timeout :: "pydict \<Rightarrow> pydict \<Rightarrow> pydict" where
  "set_timeout raw_step compiled_step =
    (if has_key raw_step ''timeout''
     then AList.update ''timeout'' (dict_get raw_step ''timeout'') compiled_step
     else AList.update ''timeout'' (PInt 15000) compiled_step)"

definition compile_wait_visible :: "pydict \<Rightarrow> pydict \<Rightarrow> py_error + pyval list" where
  "compile_wait_visible raw_step compiled_step =
    (let selector = dict_get raw_step ''selector'' in
     case step_text raw_step of
       Inl e \<Rightarrow> Inl e
     | Inr text \<Rightarrow>
         if truthy text
         then (let compiled1 = AList.update ''text'' text compiled_step in
               if truthy selector
               then Inr [PDict (set_timeout raw_step
                           (AList.update ''selectors''
                              (PList [PStr (text_selector text), selector]) compiled1))]
               else Inr [PDict (set_timeout raw_step compiled1)])
         else if truthy selector
         then (case generate_selector_candidates raw_step of
                 Inl e \<Rightarrow> Inl e
               | Inr selectors \<Rightarrow>
                   if length selectors > 1
                   then Inr [PDict (set_timeout raw_step
                               (AList.update ''selectors'' (PList (map PStr selectors))
                                  compiled_step))]
                   else Inr [PDict (set_timeout raw_step
                               (AList.update ''selector'' selector compiled_step))])
         else Inl (ValueError
                (''wait_visible step requires 'selector' or 'text' field: ''
                  @ py_repr (PDict raw_step))))"

fun py_in :: "string \<Rightarrow> pyval \<Rightarrow> py_error + bool" where
  \<comment> \<open>\<^verbatim>\<open>k in v\<close> for a string \<open>k\<close>\<close>
  "py_in k (PDict d) = Inr (has_key d k)"
| "py_in k (PStr s) = Inr (py_contains k s)"
| "py_in k (PList xs) = Inr (PStr k \<in> set xs)"
| "py_in k v = Inl (TypeError (''argument of type '' @ type_name v @ '' is not iterable''))"

fun subscript :: "pyval \<Rightarrow> string \<Rightarrow> py_error + pyval" where
  \<comment> \<open>\<^verbatim>\<open>v[k]\<close> for a string \<open>k\<close>\<close>
  "subscript (PDict d) k = (case map_of d k of Some v \<Rightarrow> Inr v | None \<Rightarrow> Inl (KeyError k))"
| "subscript (PStr s) k = Inl (TypeError ''string indices must be integers'')"
| "subscript (PList xs) k = Inl (TypeError ''list indices must be integers or slices'')"
| "subscript v k = Inl (TypeError (type_name v @ '' object is not subscriptable''))"

definition compile_other :: "pydict \<Rightarrow> pydict \<Rightarrow> py_error + pyval list" where
  \<comment> \<open>the last \<open>else\<close>: a type the compiler does not know\<close>
  "compile_other raw_step compiled_step =
    (if has_key raw_step ''params''
     then (case py_in ''text'' (dict_get raw_step ''params'') of
             Inl e \<Rightarrow> Inl e
           | Inr False \<Rightarrow> Inr [PDict compiled_step]
           | Inr True \<Rightarrow>
               (case subscript (dict_get raw_step ''params'') ''text'' of
                  Inl e \<Rightarrow> Inl e
                | Inr t \<Rightarrow> Inr [PDict (AList.update ''text'' t compiled_step)]))
     else Inr [PDict compiled_step])"

definition compile_iteration :: "pyval list \<Rightarrow> nat \<Rightarrow> py_error + pyval list" where
  \<comment> \<open>one iteration of the loop over \<open>enumerate(raw_steps)\<close>: the steps it appends\<close>
  "compile_iteration raw_steps i =
    (case raw_steps ! i of
       PDict raw_step \<Rightarrow>
         (let step_type = dict_get raw_step ''type'';
              compiled_step = copy_fields basic_fields raw_step []
          in if step_type = PStr ''click'' then compile_click raw_steps i raw_step compiled_step
             else if step_type = PStr ''expect_text'' then compile_expect_text raw_step compiled_step
             else if step_type = PStr ''wait_visible'' then compile_wait_visible raw_step compiled_step
             else if step_type \<in> {PStr ''fill'', PStr ''go'', PStr ''expect_visible'',
                                   PStr ''expect_url'', PStr ''wait_url''}
             then Inr [PDict compiled_step]
             else compile_other raw_step compiled_step)
     | v \<Rightarrow> Inl (AttributeError (type_name v) ''get''))"

fun compile_loop :: "pyval list \<Rightarrow> nat list \<Rightarrow> pyval list \<Rightarrow> py_error + pyval list" where
  "compile_loop raw_steps [] compiled_steps = Inr compiled_steps"
| "compile_loop raw_steps (i # is) compiled_steps =
     (case compile_iteration raw_steps i of
        Inl e \<Rightarrow> Inl e
      | Inr new \<Rightarrow> compile_loop raw_steps is (compiled_steps @ new))"

fun py_iter :: "pyval \<Rightarrow> py_error + pyval list" where
  \<comment> \<open>the items a \<open>for\<close> loop takes from a value\<close>
  "py_iter (PList xs) = Inr xs"
| "py_iter (PStr s) = Inr (map (\<lambda>c. PStr [c]) s)"
| "py_iter (PDict d) = Inr (map (\<lambda>kv. PStr (fst kv)) d)"
| "py_iter v = Inl (TypeError (type_name v @ '' object is not iterable''))"

fun update_all :: "pydict \<Rightarrow> pydict \<Rightarrow> pydict" where
  \<comment> \<open>the items of the first dictionary assigned, in order, into the second\<close>
  "update_all [] d = d"
| "update_all ((k, v) # kvs) d = update_all kvs (AList.update k v d)"

definition compile_steps :: "pyval \<Rightarrow> py_error + pyval list" where
  "compile_steps raw_steps_value =
    (case py_iter raw_steps_value of
       Inl e \<Rightarrow> Inl e
     | Inr raw_steps \<Rightarrow> compile_loop raw_steps [0 ..< length raw_steps] [])"

definition compile_scenario :: "pyval \<Rightarrow> py_error + pyval" where
  "compile_scenario raw_scenario_value =
    (case raw_scenario_value of
       PDict raw_scenario \<Rightarrow>
         (case compile_steps (dict_get_default raw_scenario ''steps'' (PList [])) of
            Inl e \<Rightarrow> Inl e
          | Inr compiled_steps \<Rightarrow>
              (case dict_get_default raw_scenario ''_meta'' (PDict []) of
                 PDict meta \<Rightarrow>
                   Inr (PDict
                     [(''base_url'', dict_get_default raw_scenario ''base_url'' (PStr [])),
                      (''steps'', PList compiled_steps),
                      (''_meta'',
                         PDict (AList.update ''compiler_version'' (PStr ''1.0.0'')
                                 (AList.update ''compiled'' (PBool True)
                                   (update_all meta []))))])
               | v \<Rightarrow> Inl (TypeError (type_name v @ '' object is not a mapping''))))
     | v \<Rightarrow> Inl (AttributeError (type_name v) ''get''))"

section \<open>The browser\<close>

text \<open>
  The executor drives a Playwright browser. The browser is a state \<open>'w\<close> that every call
  may change, and the calls the code makes are the fields of a record: each takes the state
  and returns its outcome (\<open>Inl\<close> the exception it raises) with the new state. A page is
  named by a number; a target is a page or a frame of a page. The writes to the debug logs
  (\<^verbatim>\<open>_log_checkpoint\<close>, \<^verbatim>\<open>_write_debug_log\<close>) and the diagnostic reads of the
  \<^verbatim>\<open>#region agent log\<close> blocks swallow every exception and decide nothing; they are left out.
\<close>

datatype target = Page nat | Frame nat nat

fun page_of :: "target \<Rightarrow> nat" where
  \<comment> \<open>\<^verbatim>\<open>tgt if isinstance(tgt, Page) else tgt.page\<close>\<close>
  "page_of (Page p) = p"
| "page_of (Frame p f) = p"

type_synonym ('w, 'a) call = "'w \<Rightarrow> (py_error + 'a) \<times> 'w"

record 'w browser =
  wait_for_load_state :: "nat \<Rightarrow> string \<Rightarrow> int \<Rightarrow> ('w, unit) call"
  wait_for_timeout :: "nat \<Rightarrow> int \<Rightarrow> ('w, unit) call"
  wait_for_function :: "nat \<Rightarrow> string \<Rightarrow> pyval \<Rightarrow> ('w, unit) call"
  expect_to_have_url :: "nat \<Rightarrow> string \<Rightarrow> pyval \<Rightarrow> ('w, unit) call"
  page_url :: "nat \<Rightarrow> 'w \<Rightarrow> string"
  locator_wait_for :: "target \<Rightarrow> string \<Rightarrow> string \<Rightarrow> int \<Rightarrow> ('w, unit) call"
  locator_evaluate :: "target \<Rightarrow> string \<Rightarrow> string \<Rightarrow> ('w, pyval) call"
  locator_scroll_into_view_if_needed :: "target \<Rightarrow> string \<Rightarrow> ('w, unit) call"
  locator_hover :: "target \<Rightarrow> string \<Rightarrow> int \<Rightarrow> ('w, unit) call"
  locator_click :: "target \<Rightarrow> string \<Rightarrow> int \<Rightarrow> bool \<Rightarrow> ('w, unit) call"
  locator_bounding_box ::
    "target \<Rightarrow> string \<Rightarrow> int \<Rightarrow> ('w, (real \<times> real \<times> real \<times> real) option) call"
  mouse_click :: "nat \<Rightarrow> real \<Rightarrow> real \<Rightarrow> ('w, unit) call"
  click_expecting_page :: "nat \<Rightarrow> string \<Rightarrow> int \<Rightarrow> ('w, nat) call"
  resolve_target :: "nat \<Rightarrow> pydict \<Rightarrow> bool \<Rightarrow> ('w, target) call"
  get_all_evaluation_scopes :: "nat \<Rightarrow> 'w \<Rightarrow> (target \<times> string) list \<times> 'w"
  evaluate_success_condition ::
    "nat \<Rightarrow> pydict \<Rightarrow> (target \<times> string) list \<Rightarrow> ('w, bool \<times> string option) call"

definition swallow :: "('w, 'a) call \<Rightarrow> 'w \<Rightarrow> 'w" where
  \<comment> \<open>\<^verbatim>\<open>try: f() except Exception: pass\<close>\<close>
  "swallow f w = snd (f w)"

fun error_str :: "py_error \<Rightarrow> string" where
  \<comment> \<open>\<^verbatim>\<open>str(e)\<close>\<close>
  "error_str (AttributeError t a) =
     [CHR 0x27] @ t @ [CHR 0x27] @ '' object has no attribute '' @ [CHR 0x27] @ a @ [CHR 0x27]"
| "error_str (TypeError m) = m"
| "error_str (ValueError m) = m"
| "error_str (KeyError k) = repr_str k"
| "error_str (RuntimeError m) = m"
| "error_str (AssertionError m) = m"
| "error_str (TimeoutError m) = m"
| "error_str (PlaywrightError m) = m"

section \<open>Action transaction\<close>

text \<open>The scripts handed to \<^verbatim>\<open>locator.evaluate\<close> are named, not spelled out.\<close>

definition js_check_actionable :: string where
  "js_check_actionable = ''el => { disabled | pointer-events: none | zero size }''"

definition js_check_disabled :: string where
  "js_check_disabled = ''el => { disabled }''"

definition js_pointer_click :: string where
  "js_pointer_click = ''(el) => { scrollIntoView; mousedown; mouseup; click; pointerdown; pointerup }''"

definition scroll_into_view_and_pass :: "'w browser \<Rightarrow> target \<Rightarrow> string \<Rightarrow> ('w, unit) call" where
  \<comment> \<open>step 4 of \<open>_pre_stabilize\<close>: a failed scroll is ignored\<close>
  "scroll_into_view_and_pass b tgt selector w =
     (Inr (), swallow (locator_scroll_into_view_if_needed b tgt selector) w)"

definition pre_stabilize :: "'w browser \<Rightarrow> target \<Rightarrow> string \<Rightarrow> ('w, unit) call" where
  "pre_stabilize b tgt selector w =
    (let w1 = swallow (wait_for_load_state b (page_of tgt) ''domcontentloaded'' 1500) w;
         w2 = swallow (wait_for_timeout b (page_of tgt) 200) w1
     in case locator_wait_for b tgt selector ''attached'' 5000 w2 of
          (Inl e, w3) \<Rightarrow> (Inl (ValueError (''Element not found: '' @ selector)), w3)
        | (Inr u, w3) \<Rightarrow>
     (case locator_wait_for b tgt selector ''visible'' 5000 w3 of
          (Inl e, w4) \<Rightarrow> (Inl (ValueError (''Element not visible: '' @ selector)), w4)
        | (Inr u, w4) \<Rightarrow>
     (case locator_evaluate b tgt selector js_check_actionable w4 of
          (Inr v, w5) \<Rightarrow> scroll_into_view_and_pass b tgt selector w5
        | (Inl e, w5) \<Rightarrow>
            (let not_actionable =
                   ValueError (''Element not actionable: '' @ selector @ '' - '' @ error_str e)
             in case wait_for_timeout b (page_of tgt) 300 w5 of
                  (Inl e', w6) \<Rightarrow> (Inl not_actionable, w6)
                | (Inr u, w6) \<Rightarrow>
                    (case locator_evaluate b tgt selector js_check_disabled w6 of
                       (Inl e', w7) \<Rightarrow> (Inl not_actionable, w7)
                     | (Inr v, w7) \<Rightarrow> scroll_into_view_and_pass b tgt selector w7)))))"

definition js_click_strategy ::
  "'w browser \<Rightarrow> target \<Rightarrow> string \<Rightarrow> py_error \<Rightarrow> py_error \<Rightarrow> py_error \<Rightarrow> ('w, pyval) call" where
  \<comment> \<open>the last strategy; when it fails too, the errors of all four are reported\<close>
  "js_click_strategy b tgt selector e1 e2 e3 w =
    (case locator_evaluate b tgt selector js_pointer_click w of
       (Inr v, w') \<Rightarrow> (Inr (PStr ''js_click''), w')
     | (Inl e4, w') \<Rightarrow>
         (Inl (RuntimeError (''All click strategies failed for '' @ selector @ ''. ''
                  @ ''Errors: native='' @ error_str e1 @ '', force='' @ error_str e2
                  @ '', coordinate='' @ error_str e3 @ '', js='' @ error_str e4)), w'))"

definition execute_click_multi_strategy :: "'w browser \<Rightarrow> target \<Rightarrow> string \<Rightarrow> ('w, pyval) call" where
  \<comment> \<open>the method used, as a string; \<open>PNone\<close> when the function falls off its end\<close>
  "execute_click_multi_strategy b tgt selector w =
    (let w1 = (case locator_hover b tgt selector 2000 w of
                 (Inr u, w') \<Rightarrow> swallow (wait_for_timeout b (page_of tgt) 300) w'
               | (Inl e, w') \<Rightarrow> w')
     in case locator_click b tgt selector 8000 False w1 of
          (Inr u, w2) \<Rightarrow> (Inr (PStr ''native_click''), w2)
        | (Inl e1, w2) \<Rightarrow>
     (case locator_click b tgt selector 8000 True w2 of
          (Inr u, w3) \<Rightarrow> (Inr (PStr ''force_click''), w3)
        | (Inl e2, w3) \<Rightarrow>
     (case locator_bounding_box b tgt selector 2000 w3 of
          (Inl e3, w4) \<Rightarrow> js_click_strategy b tgt selector e1 e2 e3 w4
        | (Inr None, w4) \<Rightarrow> (Inr PNone, w4)
        | (Inr (Some (x, y, width, height)), w4) \<Rightarrow>
            (case mouse_click b (page_of tgt) (x + width / 2) (y + height / 2) w4 of
               (Inr u, w5) \<Rightarrow> (Inr (PStr ''coordinate_click''), w5)
             | (Inl e3, w5) \<Rightarrow> js_click_strategy b tgt selector e1 e2 e3 w5))))"

fun evaluate_conditions_loop ::
  "'w browser \<Rightarrow> nat \<Rightarrow> pydict list \<Rightarrow> (target \<times> string) list
     \<Rightarrow> ('w, bool \<times> string option) call" where
  "evaluate_conditions_loop b page [] scopes w = (Inr (False, None), w)"
| "evaluate_conditions_loop b page (condition # rest) scopes w =
     (case evaluate_success_condition b page condition scopes w of
        (Inl e, w') \<Rightarrow> (Inl e, w')
      | (Inr (success, matched_scope), w') \<Rightarrow>
          if success
          then (Inr (True, Some (py_str (dict_get condition ''type'') @ ''_''
                        @ (case matched_scope of None \<Rightarrow> ''None'' | Some n \<Rightarrow> n))), w')
          else evaluate_conditions_loop b page rest scopes w')"

definition evaluate_success_conditions ::
  "'w browser \<Rightarrow> nat \<Rightarrow> pydict list \<Rightarrow> ('w, bool \<times> string option) call" where
  "evaluate_success_conditions b page success_conditions w =
    (if success_conditions = []
     then (Inr (True, Some ''no_conditions''), swallow (wait_for_timeout b page 1000) w)
     else (case get_all_evaluation_scopes b page w of
             (scopes, w') \<Rightarrow> evaluate_conditions_loop b page success_conditions scopes w'))"

text \<open>
  One attempt of the transaction, as the trace records it: the candidate's position in the
  list, the selector, the attempt number, and the outcome of each stage that was run
  (\<open>None\<close> for a stage that was not).
\<close>

record attempt =
  candidate_index :: nat
  tried_selector :: string
  attempt_no :: nat
  pre_stabilize_result :: "py_error + unit"
  action_result :: "(py_error + pyval) option"
  evaluation_result :: "(py_error + bool \<times> string option) option"

text \<open>
  How the body of the inner \<^verbatim>\<open>for attempt in range(max_retries + 1)\<close> loop ends:
  with \<^verbatim>\<open>return True, method\<close>, with \<^verbatim>\<open>continue\<close>, or with \<^verbatim>\<open>break\<close>; a \<^verbatim>\<open>break\<close> from
  the exception handler has assigned \<open>last_error\<close> first.
\<close>

datatype body_exit = Return bool pyval | Continue | Break "py_error option"

definition on_exception ::
  "'w browser \<Rightarrow> target \<Rightarrow> int \<Rightarrow> nat \<Rightarrow> py_error \<Rightarrow> attempt \<Rightarrow> 'w
     \<Rightarrow> body_exit \<times> 'w \<times> attempt" where
  \<comment> \<open>the handler \<^verbatim>\<open>except Exception as e\<close> of the loop body\<close>
  "on_exception b tgt max_retries attempt e record w =
    (if int attempt < max_retries
     then (Continue, swallow (wait_for_timeout b (page_of tgt) 500) w, record)
     else (Break (Some e), w, record))"

definition attempt_body ::
  "'w browser \<Rightarrow> nat \<Rightarrow> target \<Rightarrow> nat \<Rightarrow> string \<Rightarrow> pydict list \<Rightarrow> int \<Rightarrow> nat \<Rightarrow> 'w
     \<Rightarrow> body_exit \<times> 'w \<times> attempt" where
  "attempt_body b page tgt k sel success_conditions max_retries attempt w =
    (let record = \<lparr>candidate_index = k, tried_selector = sel, attempt_no = attempt,
                    pre_stabilize_result = Inr (), action_result = None,
                    evaluation_result = None\<rparr>
     in case pre_stabilize b tgt sel w of
          (Inl e, w1) \<Rightarrow>
            on_exception b tgt max_retries attempt e (record\<lparr>pre_stabilize_result := Inl e\<rparr>) w1
        | (Inr u, w1) \<Rightarrow>
     (case execute_click_multi_strategy b tgt sel w1 of
          (Inl e, w2) \<Rightarrow>
            on_exception b tgt max_retries attempt e (record\<lparr>action_result := Some (Inl e)\<rparr>) w2
        | (Inr method, w2) \<Rightarrow>
     (let w3 = swallow (wait_for_timeout b (page_of tgt) 2000) w2 in
      if success_conditions \<noteq> []
      then (case evaluate_success_conditions b page success_conditions w3 of
              (Inl e, w4) \<Rightarrow>
                on_exception b tgt max_retries attempt e
                  (record\<lparr>action_result := Some (Inr method),
                          evaluation_result := Some (Inl e)\<rparr>) w4
            | (Inr (success, condition_info), w4) \<Rightarrow>
                (let record' = record\<lparr>action_result := Some (Inr method),
                                       evaluation_result := Some (Inr (success, condition_info))\<rparr>
                 in if success then (Return True method, w4, record')
                    else if int attempt < max_retries
                    then (Continue, swallow (wait_for_timeout b (page_of tgt) 2000) w4, record')
                    else (Break None, w4, record')))
      else (Return True method, swallow (wait_for_timeout b (page_of tgt) 500) w3,
            record\<lparr>action_result := Some (Inr method)\<rparr>))))"

text \<open>
  The inner loop over the attempts of one candidate. It ends with the value returned, or
  hands \<open>last_error\<close> on to the next candidate.
\<close>

datatype loop_exit = Returned bool pyval | NextSelector "py_error option"

fun attempt_loop ::
  "'w browser \<Rightarrow> nat \<Rightarrow> target \<Rightarrow> nat \<Rightarrow> string \<Rightarrow> pydict list \<Rightarrow> int \<Rightarrow> nat list
     \<Rightarrow> py_error option \<Rightarrow> 'w \<Rightarrow> loop_exit \<times> 'w \<times> attempt list" where
  "attempt_loop b page tgt k sel success_conditions max_retries [] last_error w =
     (NextSelector last_error, w, [])"
| "attempt_loop b page tgt k sel success_conditions max_retries (attempt # rest) last_error w =
     (case attempt_body b page tgt k sel success_conditions max_retries attempt w of
        (Return success method, w', record) \<Rightarrow> (Returned success method, w', [record])
      | (Break None, w', record) \<Rightarrow> (NextSelector last_error, w', [record])
      | (Break (Some e), w', record) \<Rightarrow> (NextSelector (Some e), w', [record])
      | (Continue, w', record) \<Rightarrow>
          (case attempt_loop b page tgt k sel success_conditions max_retries rest last_error w' of
             (exit, w'', trace) \<Rightarrow> (exit, w'', record # trace)))"

fun selector_loop ::
  "'w browser \<Rightarrow> nat \<Rightarrow> target \<Rightarrow> nat \<Rightarrow> string list \<Rightarrow> pydict list \<Rightarrow> int
     \<Rightarrow> py_error option \<Rightarrow> 'w \<Rightarrow> (py_error + bool \<times> pyval) \<times> 'w \<times> attempt list" where
  "selector_loop b page tgt k [] success_conditions max_retries last_error w =
     ((case last_error of Some e \<Rightarrow> Inl e | None \<Rightarrow> Inr (False, PStr ''unknown'')), w, [])"
| "selector_loop b page tgt k (sel # sels) success_conditions max_retries last_error w =
     (case attempt_loop b page tgt k sel success_conditions max_retries
             [0 ..< nat (max_retries + 1)] last_error w of
        (Returned success method, w', trace) \<Rightarrow> (Inr (success, method), w', trace)
      | (NextSelector last_error', w', trace) \<Rightarrow>
          (case selector_loop b page tgt (Suc k) sels success_conditions max_retries
                  last_error' w' of
             (result, w'', trace') \<Rightarrow> (result, w'', trace @ trace')))"

datatype selector_arg = Single string | Many "string list"

fun normalize_selector :: "selector_arg \<Rightarrow> string list" where
  \<comment> \<open>\<^verbatim>\<open>[selector] if isinstance(selector, str) else selector\<close>\<close>
  "normalize_selector (Single s) = [s]"
| "normalize_selector (Many ss) = ss"

definition execute_click_transaction ::
  "'w browser \<Rightarrow> nat \<Rightarrow> target \<Rightarrow> selector_arg \<Rightarrow> pydict list \<Rightarrow> int \<Rightarrow> 'w
     \<Rightarrow> (py_error + bool \<times> pyval) \<times> 'w \<times> attempt list" where
  "execute_click_transaction b page tgt selector success_conditions max_retries w =
     selector_loop b page tgt 0 (normalize_selector selector) success_conditions max_retries
       None w"

text \<open>What the trace says of an attempt, and the value of \<open>last_error\<close> after a trace.\<close>

definition attempt_error :: "attempt \<Rightarrow> py_error option" where
  "attempt_error a =
    (case pre_stabilize_result a of
       Inl e \<Rightarrow> Some e
     | Inr u \<Rightarrow>
        (case action_result a of
           Some (Inl e) \<Rightarrow> Some e
         | Some (Inr m) \<Rightarrow> (case evaluation_result a of Some (Inl e) \<Rightarrow> Some e | _ \<Rightarrow> None)
         | None \<Rightarrow> None))"

definition attempt_succeeded :: "attempt \<Rightarrow> bool" where
  "attempt_succeeded a =
    (case action_result a of
       Some (Inr m) \<Rightarrow>
         (case evaluation_result a of
            None \<Rightarrow> True
          | Some (Inr (success, info)) \<Rightarrow> success
          | Some (Inl e) \<Rightarrow> False)
     | _ \<Rightarrow> False)"

definition final_attempt_error :: "int \<Rightarrow> attempt \<Rightarrow> py_error option" where
  "final_attempt_error N a = (if int (attempt_no a) < N then None else attempt_error a)"

fun last_error_after :: "int \<Rightarrow> py_error option \<Rightarrow> attempt list \<Rightarrow> py_error option" where
  "last_error_after N le [] = le"
| "last_error_after N le (a # as) =
     last_error_after N (case final_attempt_error N a of Some e \<Rightarrow> Some e | None \<Rightarrow> le) as"

definition failure_result :: "py_error option \<Rightarrow> py_error + bool \<times> pyval" where
  "failure_result last_error =
     (case last_error of Some e \<Rightarrow> Inl e | None \<Rightarrow> Inr (False, PStr ''unknown''))"

subsection \<open>The priority of a candidate\<close>

text \<open>
  The order the generator is to follow, written down apart from the generator: a candidate
  is kept where it is first seen, and later copies of it are dropped; and every candidate falls
  in one of five classes, 1 for a role, label or accessible-name locator of the step, 2 for
  one of its text locators, 3 for its selector when that is an id, a class without
  whitespace or a \<^verbatim>\<open>[data-\<close> attribute selector, 4 for its selector with the qualifiers
  \<^verbatim>\<open>:nth-of-type(1)\<close> and \<^verbatim>\<open>:nth-of-type(2)\<close> removed, 5 for its selector as it is. A string in
  several classes has the first of them; 6 stands for a string in none.
\<close>

fun first_seen :: "'a list \<Rightarrow> 'a list" where
  "first_seen [] = []"
| "first_seen (x # xs) = x # filter (\<lambda>y. y \<noteq> x) (first_seen xs)"



definition appended_candidates :: "pydict \<Rightarrow> string list" where
  \<comment> \<open>the list \<open>candidates\<close> before duplicates are removed\<close>
  "appended_candidates step =
     hint_candidates step
     @ (case dict_get step ''selector'' of
          PStr s \<Rightarrow> if s = [] then [] else selector_candidates s
        | _ \<Rightarrow> [])"


definition selector_is_string :: "pydict \<Rightarrow> bool" where
  \<comment> \<open>the \<open>selector\<close> of the step is absent, empty, or a string\<close>
  "selector_is_string step =
     (case dict_get step ''selector'' of PStr s \<Rightarrow> True | v \<Rightarrow> \<not> truthy v)"

subsection \<open>Well-typed raw scenarios\<close>

text \<open>
  The recorder writes a \<open>selector\<close> and a \<open>url\<close> as strings and \<open>params\<close>, if at all, as
  an object. A raw step is well typed when it is a dictionary whose \<open>selector\<close> and \<open>url\<close>
  are absent, empty or strings and whose \<open>params\<close> is absent or a dictionary; a raw scenario
  when its \<open>steps\<close> is a list of such steps and its \<open>_meta\<close> is absent or a dictionary.
\<close>

definition url_is_string :: "pydict \<Rightarrow> bool" where
  "url_is_string step = (case dict_get step ''url'' of PStr u \<Rightarrow> True | v \<Rightarrow> \<not> truthy v)"

definition params_is_dict :: "pydict \<Rightarrow> bool" where
  "params_is_dict step =
     (case map_of step ''params'' of None \<Rightarrow> True | Some (PDict p) \<Rightarrow> True | Some v \<Rightarrow> False)"

definition well_typed_step :: "pyval \<Rightarrow> bool" where
  "well_typed_step v =
     (case v of
        PDict step \<Rightarrow> selector_is_string step \<and> url_is_string step \<and> params_is_dict step
      | _ \<Rightarrow> False)"

definition raw_steps_of :: "pydict \<Rightarrow> pyval list" where
  "raw_steps_of raw_scenario =
     (case dict_get_default raw_scenario ''steps'' (PList []) of PList raw \<Rightarrow> raw | _ \<Rightarrow> [])"

definition well_typed_scenario :: "pydict \<Rightarrow> bool" where
  "well_typed_scenario raw_scenario =
     ((case dict_get_default raw_scenario ''steps'' (PList []) of
         PList raw \<Rightarrow> list_all well_typed_step raw
       | _ \<Rightarrow> False)
      \<and> (case dict_get_default raw_scenario ''_meta'' (PDict []) of
            PDict meta \<Rightarrow> True
          | _ \<Rightarrow> False))"

definition wait_visible_without_target :: "pyval \<Rightarrow> bool" where
  \<comment> \<open>a \<open>wait_visible\<close> step with neither a text nor a selector\<close>
  "wait_visible_without_target v =
     (case v of
        PDict step \<Rightarrow>
          dict_get step ''type'' = PStr ''wait_visible''
          \<and> (case step_text step of Inr text \<Rightarrow> \<not> truthy text | Inl e \<Rightarrow> False)
          \<and> \<not> truthy (dict_get step ''selector'')
      | _ \<Rightarrow> False)"

fun is_value_error :: "py_error \<Rightarrow> bool" where
  "is_value_error (ValueError m) = True"
| "is_value_error e = False"

section \<open>Running one step\<close>

text \<open>
  \<open>run_step\<close> is one long chain of branches on the type of the step. The branches for
  \<open>click\<close>, \<open>click_popup\<close> and \<open>wait_url\<close> are modelled; every branch that does not return
  early ends with the delay of the step.
\<close>

definition py_strip :: "string \<Rightarrow> string" where
  \<comment> \<open>\<^verbatim>\<open>s.strip()\<close>\<close>
  "py_strip s = rev (dropWhile is_space (rev (dropWhile is_space s)))"

fun parse_digits :: "string \<Rightarrow> int \<Rightarrow> bool \<Rightarrow> int option" where
  \<comment> \<open>decimal digits, with single underscores between digits; the flag: the last character
      read was a digit\<close>
  "parse_digits [] acc after_digit = (if after_digit then Some acc else None)"
| "parse_digits (c # cs) acc after_digit =
     (if 48 \<le> (of_char c :: nat) \<and> (of_char c :: nat) \<le> 57
      then parse_digits cs (acc * 10 + (int (of_char c) - 48)) True
      else if c = CHR ''_'' \<and> after_digit then parse_digits cs acc False
      else None)"

definition int_of_str :: "string \<Rightarrow> int option" where
  \<comment> \<open>\<^verbatim>\<open>int(s)\<close> for a string; \<open>None\<close> where it raises \<^verbatim>\<open>ValueError\<close>\<close>
  "int_of_str s =
    (case py_strip s of
       [] \<Rightarrow> None
     | c # cs \<Rightarrow>
         if c = CHR ''-'' then map_option uminus (parse_digits cs 0 False)
         else if c = CHR ''+'' then parse_digits cs 0 False
         else parse_digits (c # cs) 0 False)"

fun py_int :: "pyval \<Rightarrow> int option" where
  \<comment> \<open>\<^verbatim>\<open>int(v)\<close>; \<open>None\<close> where it raises\<close>
  "py_int (PInt i) = Some i"
| "py_int (PBool b) = Some (if b then 1 else 0)"
| "py_int (PStr s) = int_of_str s"
| "py_int v = None"

definition get_delay_ms :: "pydict \<Rightarrow> int" where
  "get_delay_ms step =
    (let v = dict_get_default step ''delay_ms'' (dict_get_default step ''delay'' (PInt 0))
     in case py_int (if truthy v then v else PInt 0) of
          Some n \<Rightarrow> max 0 n
        | None \<Rightarrow> 0)"

definition post_step_delay :: "'w browser \<Rightarrow> nat \<Rightarrow> pydict \<Rightarrow> 'w \<Rightarrow> 'w" where
  \<comment> \<open>the end of \<open>run_step\<close>: wait for the delay of the step\<close>
  "post_step_delay b page step w =
     (if get_delay_ms step > 0 then swallow (wait_for_timeout b page (get_delay_ms step)) w
      else w)"

subsection \<open>click\<close>

definition js_dispatch_click :: string where
  "js_dispatch_click = ''el => { scrollIntoView; dispatchEvent(click) }''"

definition step_selectors :: "pydict \<Rightarrow> py_error + pyval list" where
  \<comment> \<open>the list \<open>selectors\<close> of the step, or its single \<open>selector\<close> as a list\<close>
  "step_selectors step =
    (case dict_get step ''selectors'' of
       PList (x # xs) \<Rightarrow> Inr (x # xs)
     | v \<Rightarrow>
         (let sel = dict_get step ''selector'' in
          if \<not> truthy sel
          then Inl (ValueError ''click step requires 'selector' or 'selectors' field'')
          else Inr [sel]))"

fun clickable_loop :: "pyval list \<Rightarrow> string list \<Rightarrow> string list \<Rightarrow> py_error + string list \<times> string list" where
  \<comment> \<open>the loop that fills \<open>clickable_selectors\<close>; it returns the selectors read, too\<close>
  "clickable_loop [] selectors clickable_selectors = Inr (selectors, clickable_selectors)"
| "clickable_loop (PStr sel # rest) selectors clickable_selectors =
     (if \<not> (py_startswith sel ''text='' \<or> py_startswith sel (''text='' @ [CHR 0x22]))
      then clickable_loop rest (selectors @ [sel]) (clickable_selectors @ [sel])
      else clickable_loop rest (selectors @ [sel]) clickable_selectors)"
| "clickable_loop (v # rest) selectors clickable_selectors =
     Inl (AttributeError (type_name v) ''startswith'')"

definition clickable_selectors_of :: "pyval list \<Rightarrow> py_error + string list" where
  \<comment> \<open>the candidates that are clicked: the filtered list, or the whole list if that is empty\<close>
  "clickable_selectors_of selectors_value =
    (case clickable_loop selectors_value [] [] of
       Inl e \<Rightarrow> Inl e
     | Inr (selectors, clickable_selectors) \<Rightarrow>
         if clickable_selectors = [] then Inr selectors else Inr clickable_selectors)"

fun click_loop ::
  "'w browser \<Rightarrow> nat \<Rightarrow> target \<Rightarrow> pydict \<Rightarrow> string list \<Rightarrow> py_error option \<Rightarrow> 'w
     \<Rightarrow> py_error option \<times> 'w \<times> string list" where
  \<comment> \<open>the loop over \<open>clickable_selectors\<close>; it returns \<open>last_error\<close> and the selectors it tried\<close>
  "click_loop b page tgt step [] last_error w = (last_error, w, [])"
| "click_loop b page tgt step (sel # rest) last_error w =
     (case locator_scroll_into_view_if_needed b tgt sel w of
        (Inl e, w1) \<Rightarrow>
          (case click_loop b page tgt step rest (Some e) w1 of
             (last_error', w', tried) \<Rightarrow> (last_error', w', sel # tried))
      | (Inr u, w1) \<Rightarrow>
          (case locator_evaluate b tgt sel js_dispatch_click w1 of
             (Inl e, w2) \<Rightarrow>
               (case click_loop b page tgt step rest (Some e) w2 of
                  (last_error', w', tried) \<Rightarrow> (last_error', w', sel # tried))
           | (Inr v, w2) \<Rightarrow>
               (last_error,
                (if truthy (dict_get_default step ''success_conditions'' (PList []))
                 then swallow (wait_for_timeout b page 500) w2 else w2),
                [sel])))"

definition run_step_click ::
  "'w browser \<Rightarrow> nat \<Rightarrow> pydict \<Rightarrow> 'w \<Rightarrow> (py_error + nat) \<times> 'w \<times> string list" where
  \<comment> \<open>the \<open>click\<close> branch; the third component lists the selectors a click was tried with\<close>
  "run_step_click b page step w =
    (case resolve_target b page step False w of
       (Inl e, w1) \<Rightarrow> (Inl e, w1, [])
     | (Inr tgt, w1) \<Rightarrow>
    (case step_selectors step of
       Inl e \<Rightarrow> (Inl e, w1, [])
     | Inr selectors \<Rightarrow>
    (case clickable_selectors_of selectors of
       Inl e \<Rightarrow> (Inl e, w1, [])
     | Inr clickable_selectors \<Rightarrow>
    (case click_loop b page tgt step clickable_selectors None w1 of
       (Some last_error, w2, tried) \<Rightarrow>
         (Inl (RuntimeError (''Click failed for all selectors: ''
                  @ py_repr (PList (map PStr clickable_selectors))
                  @ ''. Last error: '' @ error_str last_error)), w2, tried)
     | (None, w2, tried) \<Rightarrow> (Inr page, post_step_delay b page step w2, tried)))))"

subsection \<open>wait\_url\<close>

definition starts_with_script :: "string \<Rightarrow> string" where
  \<comment> \<open>the script handed to \<^verbatim>\<open>page.wait_for_function\<close>\<close>
  \<open>starts_with_script url_prefix =
     ''() => (window.location.href || "").startsWith("'' @ url_prefix @ ''")''\<close>


subsection \<open>click\_popup\<close>











subsection \<open>The dispatch\<close>



section \<open>The run loop\<close>





subsection \<open>Failure artifacts\<close>



subsection \<open>The loop\<close>












section \<open>A simulated browser\<close>

text \<open>
  A browser to run the model on: a static page. A selector finds an element when it is listed
  in \<open>present\<close>; a click on a selector in \<open>opens_popup\<close> opens a new page at
  \<open>popup_location\<close>; a success condition holds when its text is one of \<open>visible_texts\<close>; a
  wait for the location to start with a prefix succeeds when it does. No call changes the page;
  \<open>written\<close> lists the screenshots taken and the data written to files, in order.
\<close>

record page_sim =
  live_url :: string
  popup_location :: string
  present :: "string list"
  opens_popup :: "string list"
  visible_texts :: "string list"
  written :: "(string \<times> pyval) list"

definition sim_url :: "nat \<Rightarrow> page_sim \<Rightarrow> string" where
  "sim_url p w = (if p = 0 then live_url w else popup_location w)"

definition sim_find :: "string \<Rightarrow> 'a \<Rightarrow> page_sim \<Rightarrow> (py_error + 'a) \<times> page_sim" where
  "sim_find sel v w =
     (if sel \<in> set (present w) then (Inr v, w)
      else (Inl (TimeoutError (''Timeout exceeded waiting for '' @ sel)), w))"

definition sim_browser :: "page_sim browser" where
  "sim_browser =
    \<lparr>wait_for_load_state = (\<lambda>p state t w. (Inr (), w)),
     wait_for_timeout = (\<lambda>p ms w. (Inr (), w)),
     wait_for_function = (\<lambda>p script t w.
        if list_ex (\<lambda>n. script = starts_with_script (take n (sim_url p w)))
             [0 ..< Suc (length (sim_url p w))]
        then (Inr (), w) else (Inl (TimeoutError ''Timeout exceeded''), w)),
     expect_to_have_url = (\<lambda>p url t w.
        if sim_url p w = url then (Inr (), w)
        else (Inl (AssertionError (''Page URL expected to be '' @ url)), w)),
     page_url = sim_url,
     locator_wait_for = (\<lambda>tgt sel state t. sim_find sel ()),
     locator_evaluate = (\<lambda>tgt sel script. sim_find sel PNone),
     locator_scroll_into_view_if_needed = (\<lambda>tgt sel. sim_find sel ()),
     locator_hover = (\<lambda>tgt sel t. sim_find sel ()),
     locator_click = (\<lambda>tgt sel t force. sim_find sel ()),
     locator_bounding_box = (\<lambda>tgt sel t. sim_find sel None),
     mouse_click = (\<lambda>p x y w. (Inr (), w)),
     click_expecting_page = (\<lambda>p sel t w.
        if sel \<in> set (opens_popup w) then (Inr (Suc p), w)
        else (Inl (TimeoutError ''Timeout exceeded while waiting for event page''), w)),
     resolve_target = (\<lambda>p step wait w. (Inr (Page p), w)),
     get_all_evaluation_scopes = (\<lambda>p w. ([(Page p, ''top_page'')], w)),
     evaluate_success_condition = (\<lambda>p condition scopes w.
        if dict_get condition ''text'' \<in> PStr ` set (visible_texts w)
        then (Inr (True, Some ''top_page''), w) else (Inr (False, None), w))\<rparr>"

definition start_page :: page_sim where
  "start_page = \<lparr>live_url = ''https://x.test/start'', popup_location = ''https://x.test/popup'',
                  present = [''#a'', ''#b''], opens_popup = [''#b''], visible_texts = [''Hello''],
                  written = []\<rparr>"




definition welcome_condition :: pydict where
  "welcome_condition = [(''type'', PStr ''element_visible''), (''text'', PStr ''Welcome''),
              (''timeout'', PInt 15000)]"

section \<open>Properties\<close>

subsection \<open>Length of the compiled step list\<close>

text \<open>
  C1. The claim: the compiled step list is never longer than the raw step list, and a step
  absorbed into the success conditions of the click before it does not appear as a step of
  its own. The compiler's loop appends the compiled click step once inside the \<open>click\<close>
  branch and, unless \<open>skip_next\<close> is set, once more at the end of the loop body; with
  \<open>skip_next\<close> set its \<^verbatim>\<open>continue\<close> only ends the current iteration, so the following step
  is compiled in the next iteration all the same. A scenario of one click step compiles to
  two steps, and a click followed by an \<open>expect_text\<close> compiles to the click (with the text as
  a success condition) followed by the \<open>expect_text\<close> step.
\<close>

theorem compile_scenario_click_not_compressed:
  "compile_scenario
     (PDict [(''steps'', PList [PDict [(''type'', PStr ''click''), (''selector'', PStr ''#a'')]])])
   = Inr (PDict
       [(''base_url'', PStr []),
        (''steps'', PList [PDict [(''type'', PStr ''click''), (''selector'', PStr ''#a'')],
                           PDict [(''type'', PStr ''click''), (''selector'', PStr ''#a'')]]),
        (''_meta'', PDict [(''compiled'', PBool True), (''compiler_version'', PStr ''1.0.0'')])])
   \<and>
   compile_scenario
     (PDict [(''steps'', PList [PDict [(''type'', PStr ''click''), (''selector'', PStr ''#a'')],
                                PDict [(''type'', PStr ''expect_text''), (''text'', PStr ''Hi'')]])])
   = Inr (PDict
       [(''base_url'', PStr []),
        (''steps'', PList
           [PDict [(''type'', PStr ''click''),
                   (''selectors'', PList [PStr (text_selector (PStr ''Hi'')), PStr ''#a'']),
                   (''success_conditions'', PList
                      [PDict [(''type'', PStr ''modal_visible''), (''text'', PStr ''Hi''),
                              (''timeout'', PInt 15000)],
                       PDict [(''type'', PStr ''element_visible''), (''text'', PStr ''Hi''),
                              (''timeout'', PInt 15000)]])],
            PDict [(''type'', PStr ''expect_text''), (''text'', PStr ''Hi'')]]),
        (''_meta'', PDict [(''compiled'', PBool True), (''compiler_version'', PStr ''1.0.0'')])])"
  by code_simp

subsection \<open>The retry loops of the click transaction\<close>

lemma on_exception_cases:
  "on_exception b tgt N n e r w = (x, w', r') \<Longrightarrow>
     r' = r \<and> ((x = Continue \<and> int n < N) \<or> (x = Break (Some e) \<and> \<not> int n < N))"
  by (auto simp: on_exception_def split: if_splits)

lemma attempt_body_record:
  assumes "attempt_body b page tgt k sel conds N n w = (x, w', r)"
  shows "candidate_index r = k \<and> attempt_no r = n \<and> tried_selector r = sel"
  using assms
  by (auto simp: attempt_body_def Let_def split: prod.splits sum.splits if_splits
      dest!: on_exception_cases)

lemma attempt_body_exit:
  assumes "attempt_body b page tgt k sel conds N n w = (x, w', r)"
  shows "(case x of
            Return s m \<Rightarrow> s \<and> attempt_succeeded r \<and> action_result r = Some (Inr m)
                            \<and> attempt_error r = None
          | Continue \<Rightarrow> \<not> attempt_succeeded r \<and> int n < N
          | Break None \<Rightarrow> \<not> attempt_succeeded r \<and> attempt_error r = None \<and> \<not> int n < N
          | Break (Some e) \<Rightarrow> \<not> attempt_succeeded r \<and> attempt_error r = Some e \<and> \<not> int n < N)"
  using assms
  by (auto simp: attempt_body_def Let_def attempt_succeeded_def attempt_error_def
      split: prod.splits sum.splits if_splits body_exit.splits option.splits
      dest!: on_exception_cases)


lemma attempt_loop_Cons:
  assumes "attempt_loop b page tgt k sel conds N (n # ns) le w = (x, w', tr)"
  obtains (return) s m r where "attempt_body b page tgt k sel conds N n w = (Return s m, w', r)"
            "x = Returned s m" "tr = [r]"
        | (break_none) r where "attempt_body b page tgt k sel conds N n w = (Break None, w', r)"
            "x = NextSelector le" "tr = [r]"
        | (break_some) e r where "attempt_body b page tgt k sel conds N n w = (Break (Some e), w', r)"
            "x = NextSelector (Some e)" "tr = [r]"
        | (continue) w1 r tr2 where "attempt_body b page tgt k sel conds N n w = (Continue, w1, r)"
            "attempt_loop b page tgt k sel conds N ns le w1 = (x, w', tr2)" "tr = r # tr2"
proof (cases "attempt_body b page tgt k sel conds N n w")
  case (fields y w1 r)
  show ?thesis
  proof (cases y)
    case (Return s m)
    with fields assms return show ?thesis by auto
  next
    case Continue
    obtain x2 w2 tr2 where rec: "attempt_loop b page tgt k sel conds N ns le w1 = (x2, w2, tr2)"
      by (cases "attempt_loop b page tgt k sel conds N ns le w1") auto
    with fields assms Continue continue show ?thesis by auto
  next
    case (Break eo)
    with fields assms break_none break_some show ?thesis by (cases eo) auto
  qed
qed

lemma attempt_loop_trace:
  assumes "attempt_loop b page tgt k sel conds N ns le w = (x, w', tr)"
  shows "length tr \<le> length ns \<and> (\<forall>a\<in>set tr. candidate_index a = k) \<and>
         (\<forall>a\<in>set (butlast tr). \<not> attempt_succeeded a \<and> final_attempt_error N a = None)"
  using assms
proof (induction ns arbitrary: w tr)
  case Nil
  then show ?case by simp
next
  case (Cons n ns)
  from Cons.prems show ?case
  proof (cases rule: attempt_loop_Cons)
    case (continue w1 r tr2)
    from attempt_body_exit[OF continue(1)] attempt_body_record[OF continue(1)]
    have r: "\<not> attempt_succeeded r" "final_attempt_error N r = None" "candidate_index r = k"
      by (auto simp: final_attempt_error_def)
    from Cons.IH[OF continue(2)] r continue(3) show ?thesis
      by (auto dest: in_set_butlastD)
  qed (use attempt_body_record in \<open>fastforce+\<close>)
qed

lemma attempt_loop_exit:
  assumes "attempt_loop b page tgt k sel conds N ns le w = (x, w', tr)"
  shows "case x of
           Returned s m \<Rightarrow> s \<and> tr \<noteq> [] \<and> attempt_succeeded (last tr)
                             \<and> action_result (last tr) = Some (Inr m)
         | NextSelector le' \<Rightarrow>
             (\<forall>a\<in>set tr. \<not> attempt_succeeded a) \<and>
             le' = (if tr \<noteq> [] \<and> final_attempt_error N (last tr) \<noteq> None
                    then final_attempt_error N (last tr) else le)"
  using assms
proof (induction ns arbitrary: w tr)
  case Nil
  then show ?case by auto
next
  case (Cons n ns)
  from Cons.prems show ?case
  proof (cases rule: attempt_loop_Cons)
    case (return s m r)
    from attempt_body_exit[OF return(1)] return show ?thesis by simp
  next
    case (break_none r)
    from attempt_body_exit[OF break_none(1)] attempt_body_record[OF break_none(1)] break_none
    show ?thesis by (simp add: final_attempt_error_def)
  next
    case (break_some e r)
    from attempt_body_exit[OF break_some(1)] attempt_body_record[OF break_some(1)] break_some
    show ?thesis by (simp add: final_attempt_error_def)
  next
    case (continue w1 r tr2)
    from attempt_body_exit[OF continue(1)] attempt_body_record[OF continue(1)]
    have r: "\<not> attempt_succeeded r" "final_attempt_error N r = None"
      by (auto simp: final_attempt_error_def)
    from Cons.IH[OF continue(2)] r continue(3) show ?thesis
      by (cases x) (auto split: if_splits)
  qed
qed


lemma last_error_after_append:
  "last_error_after N le (xs @ ys) = last_error_after N (last_error_after N le xs) ys"
  by (induction xs arbitrary: le) auto

lemma last_error_after_butlast:
  assumes "\<forall>a\<in>set (butlast tr). final_attempt_error N a = None"
  shows "last_error_after N le tr =
           (if tr \<noteq> [] \<and> final_attempt_error N (last tr) \<noteq> None
            then final_attempt_error N (last tr) else le)"
  using assms
proof (induction tr arbitrary: le)
  case Nil
  then show ?case by simp
next
  case (Cons a tr)
  show ?case
  proof (cases "tr = []")
    case True
    then show ?thesis by (auto split: option.splits)
  next
    case False
    with Cons.prems have a: "final_attempt_error N a = None"
      and rest: "\<forall>a\<in>set (butlast tr). final_attempt_error N a = None" by auto
    from Cons.IH[OF rest] a False show ?thesis by simp
  qed
qed

lemma attempt_loop_last_error:
  assumes "attempt_loop b page tgt k sel conds N ns le w = (NextSelector le', w', tr)"
  shows "le' = last_error_after N le tr \<and> (\<forall>a\<in>set tr. \<not> attempt_succeeded a)"
proof -
  from attempt_loop_trace[OF assms]
  have "\<forall>a\<in>set (butlast tr). final_attempt_error N a = None" by blast
  from last_error_after_butlast[OF this] attempt_loop_exit[OF assms]
  show ?thesis by simp
qed

lemma selector_loop_Cons:
  assumes "selector_loop b page tgt k (sel # sels) conds N le w = (res, w', tr)"
  obtains (returned) s m where
      "attempt_loop b page tgt k sel conds N [0 ..< nat (N + 1)] le w = (Returned s m, w', tr)"
      "res = Inr (s, m)"
  | (next_selector) le' w1 tr1 tr2 where
      "attempt_loop b page tgt k sel conds N [0 ..< nat (N + 1)] le w = (NextSelector le', w1, tr1)"
      "selector_loop b page tgt (Suc k) sels conds N le' w1 = (res, w', tr2)"
      "tr = tr1 @ tr2"
proof (cases "attempt_loop b page tgt k sel conds N [0 ..< nat (N + 1)] le w")
  case (fields x w1 tr1)
  show ?thesis
  proof (cases x)
    case (Returned s m)
    with fields assms returned show ?thesis by auto
  next
    case (NextSelector le')
    obtain r2 w2 tr2 where rec: "selector_loop b page tgt (Suc k) sels conds N le' w1 = (r2, w2, tr2)"
      by (cases "selector_loop b page tgt (Suc k) sels conds N le' w1") auto
    with fields assms NextSelector next_selector show ?thesis by auto
  qed
qed

lemma sorted_const_map:
  "\<forall>a\<in>set tr. f a = (k::nat) \<Longrightarrow> sorted (map f tr)"
  by (induction tr) auto

lemma selector_loop_indices:
  assumes "selector_loop b page tgt k sels conds N le w = (res, w', tr)"
  shows "(\<forall>a\<in>set tr. k \<le> candidate_index a \<and> candidate_index a < k + length sels) \<and>
         sorted (map candidate_index tr)"
  using assms
proof (induction sels arbitrary: k le w tr)
  case Nil
  then show ?case by auto
next
  case (Cons sel sels)
  from Cons.prems show ?case
  proof (cases rule: selector_loop_Cons)
    case (returned s m)
    from attempt_loop_trace[OF returned(1)]
    have one: "\<forall>a\<in>set tr. candidate_index a = k" by blast
    from sorted_const_map[OF one] one show ?thesis by simp
  next
    case (next_selector le' w1 tr1 tr2)
    from attempt_loop_trace[OF next_selector(1)]
    have one: "\<forall>a\<in>set tr1. candidate_index a = k" by blast
    note s1 = sorted_const_map[OF one]
    from Cons.IH[OF next_selector(2)]
    have two: "\<forall>a\<in>set tr2. Suc k \<le> candidate_index a \<and> candidate_index a < Suc k + length sels"
      and s2: "sorted (map candidate_index tr2)" by blast+
    have bounds: "\<forall>a\<in>set tr. k \<le> candidate_index a \<and> candidate_index a < k + length (sel # sels)"
      unfolding next_selector(3) using one two by fastforce
    have "sorted (map candidate_index tr1 @ map candidate_index tr2)"
      unfolding sorted_append using s1 s2 one two by fastforce
    with bounds show ?thesis by (simp add: next_selector(3))
  qed
qed

lemma attempt_loop_upt_length:
  assumes "attempt_loop b page tgt k sel conds N [0 ..< nat (N + 1)] le w = (x, w', tr)"
  shows "length tr \<le> nat (N + 1)"
  using attempt_loop_trace[OF assms] by simp

lemma selector_loop_counts:
  assumes "selector_loop b page tgt k sels conds N le w = (res, w', tr)"
  shows "length (filter (\<lambda>a. candidate_index a = i) tr) \<le> nat (N + 1) \<and>
         length tr \<le> length sels * nat (N + 1)"
  using assms
proof (induction sels arbitrary: k le w tr)
  case Nil
  then show ?case by auto
next
  case (Cons sel sels)
  from Cons.prems show ?case
  proof (cases rule: selector_loop_Cons)
    case (returned s m)
    note l = attempt_loop_upt_length[OF returned(1)]
    from order_trans[OF length_filter_le l] l show ?thesis by simp
  next
    case (next_selector le' w1 tr1 tr2)
    from attempt_loop_trace[OF next_selector(1)]
    have one: "\<forall>a\<in>set tr1. candidate_index a = k" by blast
    from selector_loop_indices[OF next_selector(2)]
    have two: "\<forall>a\<in>set tr2. Suc k \<le> candidate_index a" by blast
    note l1 = attempt_loop_upt_length[OF next_selector(1)]
    note ih = Cons.IH[OF next_selector(2)]
    have total: "length tr \<le> length (sel # sels) * nat (N + 1)"
      using l1 ih by (simp add: next_selector(3))
    have "length (filter (\<lambda>a. candidate_index a = i) tr) \<le> nat (N + 1)"
    proof (cases "i = k")
      case True
      with two have "filter (\<lambda>a. candidate_index a = i) tr2 = []"
        by (auto simp: filter_empty_conv)
      with order_trans[OF length_filter_le l1] show ?thesis by (simp add: next_selector(3))
    next
      case False
      with one have "filter (\<lambda>a. candidate_index a = i) tr1 = []"
        by (auto simp: filter_empty_conv)
      with ih show ?thesis by (simp add: next_selector(3))
    qed
    with total show ?thesis by simp
  qed
qed

lemma selector_loop_result:
  assumes "selector_loop b page tgt k sels conds N le w = (res, w', tr)"
  shows "(\<forall>a\<in>set (butlast tr). \<not> attempt_succeeded a) \<and>
         (if tr \<noteq> [] \<and> attempt_succeeded (last tr)
          then \<exists>m. res = Inr (True, m) \<and> action_result (last tr) = Some (Inr m)
          else res = failure_result (last_error_after N le tr))"
  using assms
proof (induction sels arbitrary: k le w tr)
  case Nil
  then show ?case by (auto simp: failure_result_def)
next
  case (Cons sel sels)
  from Cons.prems show ?case
  proof (cases rule: selector_loop_Cons)
    case (returned s m)
    from attempt_loop_trace[OF returned(1)] attempt_loop_exit[OF returned(1)] returned(2)
    show ?thesis by auto
  next
    case (next_selector le' w1 tr1 tr2)
    from attempt_loop_last_error[OF next_selector(1)]
    have le': "le' = last_error_after N le tr1" and f1: "\<forall>a\<in>set tr1. \<not> attempt_succeeded a"
      by blast+
    note ih = Cons.IH[OF next_selector(2)]
    show ?thesis
    proof (cases "tr2 = []")
      case True
      with ih f1 le' show ?thesis
        by (auto simp: next_selector(3) dest: in_set_butlastD)
    next
      case False
      then have "butlast tr = tr1 @ butlast tr2" "last tr = last tr2" "tr \<noteq> []"
        by (simp_all add: next_selector(3) butlast_append)
      with ih f1 le' False show ?thesis
        by (auto simp: next_selector(3) last_error_after_append)
    qed
  qed
qed


subsection \<open>The click transaction\<close>

lemma execute_click_transaction_cases:
  obtains res w' tr where
    "execute_click_transaction b page tgt selector conds N w = (res, w', tr)"
    "selector_loop b page tgt 0 (normalize_selector selector) conds N None w = (res, w', tr)"
  by (cases "selector_loop b page tgt 0 (normalize_selector selector) conds N None w")
     (auto simp: execute_click_transaction_def)






text \<open>
  C4. With \<open>max_retries = N\<close>, the executor makes at most \<open>N + 1\<close> attempts with one selector
  candidate before it goes on to the next, and at most (number of candidates) times \<open>N + 1\<close>
  attempts in all. The trace lists the attempts in the order they were made: for every
  position \<open>i\<close> in the candidate list at most \<open>nat (N + 1)\<close> attempts carry that position,
  the whole trace is no longer than the number of candidates times \<open>nat (N + 1)\<close>, and the
  positions never decrease along the trace (a candidate is not taken up again once the next
  one has been tried). \<open>nat (N + 1)\<close> is \<open>N + 1\<close> for every \<open>N \<ge> -1\<close>; below that
  \<^verbatim>\<open>range(max_retries + 1)\<close> is empty and no attempt is made.
\<close>

theorem click_transaction_attempt_bounds:
  "length (filter (\<lambda>a. candidate_index a = i)
             (snd (snd (execute_click_transaction b page tgt selector conds N w))))
     \<le> nat (N + 1)
   \<and> length (snd (snd (execute_click_transaction b page tgt selector conds N w)))
     \<le> length (normalize_selector selector) * nat (N + 1)
   \<and> sorted (map candidate_index
        (snd (snd (execute_click_transaction b page tgt selector conds N w))))"
proof -
  obtain res w' tr where run:
    "execute_click_transaction b page tgt selector conds N w = (res, w', tr)"
    and loop: "selector_loop b page tgt 0 (normalize_selector selector) conds N None w = (res, w', tr)"
    by (rule execute_click_transaction_cases)
  from selector_loop_counts[OF loop, of i] selector_loop_indices[OF loop]
  show ?thesis by (simp add: run)
qed

theorem click_transaction_attempt_bounds_witness:
  "length (filter (\<lambda>a. candidate_index a = 0)
             (snd (snd (execute_click_transaction sim_browser 0 (Page 0) (Many [''#a'', ''#b''])
                          [welcome_condition] 1 start_page))))
     = 2
   \<and> length (snd (snd (execute_click_transaction sim_browser 0 (Page 0) (Many [''#a'', ''#b''])
                          [welcome_condition] 1 start_page))) = 4
   \<and> nat (1 + 1) = (2::nat) \<and> length (normalize_selector (Many [''#a'', ''#b''])) * nat (1 + 1) = 4"
proof -
  have run: "map candidate_index (snd (snd (execute_click_transaction sim_browser 0 (Page 0)
               (Many [''#a'', ''#b'']) [welcome_condition] 1 start_page))) = [0, 0, 1, 1]"
    by code_simp
  from arg_cong[OF run, of length] arg_cong[OF run, of "\<lambda>xs. length (filter (\<lambda>k. k = 0) xs)"]
    click_transaction_attempt_bounds[of 0 sim_browser 0 "Page 0" "Many [''#a'', ''#b'']"
      "[welcome_condition]" 1 start_page]
  show ?thesis by (simp add: filter_map comp_def)
qed

text \<open>
  C2. The claim: when every candidate has failed after all its retries, by an exception or by
  success conditions that were never met, \<open>execute_click_transaction\<close> raises. It does so
  only when \<open>last_error\<close> was assigned, that is when the final attempt of some candidate ended
  in an exception. When every final attempt ended with unmet conditions, the function returns
  \<^verbatim>\<open>(False, "unknown")\<close> to its caller: on the simulated page, where both selectors are
  clicked and the text \<open>Welcome\<close> never shows, four attempts fail and nothing is raised.
\<close>

theorem click_transaction_returns_false_counterexample:
  "execute_click_transaction sim_browser 0 (Page 0) (Many [''#a'', ''#b''])
      [welcome_condition] 1 start_page
   = (Inr (False, PStr ''unknown''), start_page,
      [\<lparr>candidate_index = 0, tried_selector = ''#a'', attempt_no = 0,
        pre_stabilize_result = Inr (), action_result = Some (Inr (PStr ''native_click'')),
        evaluation_result = Some (Inr (False, None))\<rparr>,
       \<lparr>candidate_index = 0, tried_selector = ''#a'', attempt_no = 1,
        pre_stabilize_result = Inr (), action_result = Some (Inr (PStr ''native_click'')),
        evaluation_result = Some (Inr (False, None))\<rparr>,
       \<lparr>candidate_index = 1, tried_selector = ''#b'', attempt_no = 0,
        pre_stabilize_result = Inr (), action_result = Some (Inr (PStr ''native_click'')),
        evaluation_result = Some (Inr (False, None))\<rparr>,
       \<lparr>candidate_index = 1, tried_selector = ''#b'', attempt_no = 1,
        pre_stabilize_result = Inr (), action_result = Some (Inr (PStr ''native_click'')),
        evaluation_result = Some (Inr (False, None))\<rparr>])"
  by code_simp

text \<open>
  C2, as amended. When no attempt of the transaction succeeded, the result is the failure
  result of \<open>last_error\<close>: the exception of the last final attempt that raised one, and
  the value \<^verbatim>\<open>(False, "unknown")\<close> when no final attempt raised. In neither case is it
  \<^verbatim>\<open>(True, method)\<close>: a failure is never turned into a pass.
\<close>

theorem click_transaction_never_passes_a_failure:
  assumes "list_all (\<lambda>a. \<not> attempt_succeeded a)
             (snd (snd (execute_click_transaction b page tgt selector conds N w)))"
  shows "fst (execute_click_transaction b page tgt selector conds N w)
           = failure_result (last_error_after N None
               (snd (snd (execute_click_transaction b page tgt selector conds N w))))
         \<and> (\<forall>method. fst (execute_click_transaction b page tgt selector conds N w)
               \<noteq> Inr (True, method))"
proof -
  obtain res w' tr where run:
    "execute_click_transaction b page tgt selector conds N w = (res, w', tr)"
    and loop: "selector_loop b page tgt 0 (normalize_selector selector) conds N None w = (res, w', tr)"
    by (rule execute_click_transaction_cases)
  from assms run have failed: "\<forall>a\<in>set tr. \<not> attempt_succeeded a"
    by (simp add: list_all_iff)
  then have "\<not> (tr \<noteq> [] \<and> attempt_succeeded (last tr))" by auto
  with selector_loop_result[OF loop] have "res = failure_result (last_error_after N None tr)"
    by simp
  then show ?thesis
    by (auto simp: run failure_result_def split: option.splits)
qed

theorem click_transaction_never_passes_a_failure_witness:
  "list_all (\<lambda>a. \<not> attempt_succeeded a)
     (snd (snd (execute_click_transaction sim_browser 0 (Page 0) (Many [''#zz'', ''#b''])
                  [welcome_condition] 1 start_page)))
   \<and> fst (execute_click_transaction sim_browser 0 (Page 0) (Many [''#zz'', ''#b''])
            [welcome_condition] 1 start_page)
       = Inl (ValueError ''Element not found: #zz'')"
proof -
  have failed: "list_all (\<lambda>a. \<not> attempt_succeeded a)
     (snd (snd (execute_click_transaction sim_browser 0 (Page 0) (Many [''#zz'', ''#b''])
                  [welcome_condition] 1 start_page)))"
    by code_simp
  have err: "failure_result (last_error_after 1 None
     (snd (snd (execute_click_transaction sim_browser 0 (Page 0) (Many [''#zz'', ''#b''])
                  [welcome_condition] 1 start_page)))) = Inl (ValueError ''Element not found: #zz'')"
    by code_simp
  from click_transaction_never_passes_a_failure[OF failed] failed err show ?thesis by simp
qed



subsection \<open>Selector candidates\<close>

lemma unique_loop_first_seen:
  "unique_loop xs seen acc = acc @ filter (\<lambda>x. x \<notin> seen) (first_seen xs)"
proof (induction xs arbitrary: seen acc)
  case Nil
  then show ?case by simp
next
  case (Cons c cs)
  show ?case
  proof (cases "c \<in> seen")
    case True
    then have "filter (\<lambda>x. x \<notin> seen) (filter (\<lambda>y. y \<noteq> c) (first_seen cs))
                 = filter (\<lambda>x. x \<notin> seen) (first_seen cs)"
      by (auto intro: filter_cong)
    with True Cons.IH[of seen acc] show ?thesis by (simp del: filter_filter)
  next
    case False
    have "filter (\<lambda>x. x \<notin> insert c seen) (first_seen cs)
            = filter (\<lambda>x. x \<notin> seen) (filter (\<lambda>y. y \<noteq> c) (first_seen cs))"
      by (auto intro: filter_cong)
    with False Cons.IH[of "insert c seen" "acc @ [c]"] show ?thesis
      by (simp del: filter_filter)
  qed
qed

lemma set_first_seen: "set (first_seen xs) = set xs"
  by (induction xs) auto


lemma first_seen_snoc:
  "first_seen (xs @ [x]) = (if x \<in> set xs then first_seen xs else first_seen xs @ [x])"
proof (induction xs)
  case Nil
  then show ?case by simp
next
  case (Cons y ys)
  then show ?case by (auto simp: set_first_seen)
qed

lemma sorted_first_seen:
  fixes r :: "'a \<Rightarrow> nat"
  assumes "\<And>ys x zs. xs = ys @ x # zs \<Longrightarrow> x \<notin> set ys \<Longrightarrow> \<forall>y\<in>set ys. r y \<le> r x"
  shows "sorted (map r (first_seen xs))"
  using assms
proof (induction xs rule: rev_induct)
  case Nil
  then show ?case by simp
next
  case (snoc x xs)
  have inner: "sorted (map r (first_seen xs))"
  proof (rule snoc.IH)
    fix ys y zs
    assume "xs = ys @ y # zs" "y \<notin> set ys"
    with snoc.prems[of ys y "zs @ [x]"] show "\<forall>z\<in>set ys. r z \<le> r y" by simp
  qed
  show ?case
  proof (cases "x \<in> set xs")
    case True
    with inner show ?thesis by (simp add: first_seen_snoc)
  next
    case False
    with snoc.prems[of xs x "[]"] have "\<forall>y\<in>set xs. r y \<le> r x" by simp
    with inner False show ?thesis
      by (simp add: first_seen_snoc sorted_append set_first_seen)
  qed
qed





lemma generate_selector_candidates_first_seen:
  assumes "selector_is_string step"
  shows "generate_selector_candidates step = Inr (first_seen (appended_candidates step))"
  using assms
  by (cases "dict_get step ''selector''")
     (auto simp: generate_selector_candidates_def selector_is_string_def appended_candidates_def
        Let_def unique_loop_first_seen)





subsection \<open>When the compiler raises\<close>

lemma step_text_total:
  assumes "params_is_dict step"
  shows "\<exists>t. step_text step = Inr t"
  using assms
  by (auto simp: step_text_def params_is_dict_def dict_get_default_def Let_def
      split: option.splits pyval.splits)

lemma url_changed_condition_total:
  assumes "url_is_string step"
  shows "\<exists>c. url_changed_condition (dict_get step ''url'') = Inr c"
  using assms
  by (auto simp: url_changed_condition_def url_is_string_def split: pyval.splits)

lemma generate_selector_candidates_total:
  assumes "selector_is_string step"
  shows "\<exists>cs. generate_selector_candidates step = Inr cs"
  using generate_selector_candidates_first_seen[OF assms] by blast

lemma infer_success_conditions_total:
  assumes "raw ! i = PDict step" and "i + 1 < length raw \<Longrightarrow> well_typed_step (raw ! (i + 1))"
  shows "\<exists>c. infer_success_conditions raw i = Inr c"
proof (cases "i + 1 < length raw")
  case False
  with assms(1) show ?thesis by (simp add: infer_success_conditions_def)
next
  case True
  from assms(2)[OF True] obtain next_step where nx: "raw ! (i + 1) = PDict next_step"
    and typed: "url_is_string next_step" "params_is_dict next_step"
    by (auto simp: well_typed_step_def split: pyval.splits)
  from step_text_total[OF typed(2)] obtain t where t: "step_text next_step = Inr t" by blast
  from url_changed_condition_total[OF typed(1)] obtain c
    where c: "url_changed_condition (dict_get next_step ''url'') = Inr c" by blast
  from assms(1) True nx t c show ?thesis
    by (simp add: infer_success_conditions_def Let_def)
qed

lemma look_ahead_total:
  assumes "i + 1 < length raw \<Longrightarrow> well_typed_step (raw ! (i + 1))"
  shows "\<exists>x. look_ahead raw i = Inr x"
proof (cases "i + 1 < length raw")
  case False
  then show ?thesis by (auto simp: look_ahead_def)
next
  case True
  from assms[OF True] obtain next_step where nx: "raw ! (i + 1) = PDict next_step"
    and typed: "params_is_dict next_step"
    by (auto simp: well_typed_step_def split: pyval.splits)
  from step_text_total[OF typed] obtain t where t: "step_text next_step = Inr t" by blast
  from True nx t show ?thesis
    by (auto simp: look_ahead_def Let_def)
qed

lemma compile_click_total:
  assumes "raw ! i = PDict step" "selector_is_string step"
    and "i + 1 < length raw \<Longrightarrow> well_typed_step (raw ! (i + 1))"
  shows "\<exists>new. compile_click raw i step compiled = Inr new"
proof -
  from generate_selector_candidates_total[OF assms(2)] obtain cs
    where cs: "generate_selector_candidates step = Inr cs" by blast
  from look_ahead_total[OF assms(3)] obtain x where x: "look_ahead raw i = Inr x" by blast
  from infer_success_conditions_total[OF assms(1) assms(3)] obtain c
    where c: "infer_success_conditions raw i = Inr c" by blast
  obtain a1 a2 a3 a4 a5 where "x = (a1, a2, a3, a4, a5)" by (cases x) auto
  with cs x c show ?thesis
    by (simp add: compile_click_def Let_def)
qed

lemma compile_expect_text_total:
  assumes "params_is_dict step"
  shows "\<exists>new. compile_expect_text step compiled = Inr new"
proof -
  from step_text_total[OF assms] obtain t where "step_text step = Inr t" by blast
  then show ?thesis by (simp add: compile_expect_text_def Let_def)
qed

lemma compile_wait_visible_cases:
  assumes "params_is_dict step" "selector_is_string step"
    and "dict_get step ''type'' = PStr ''wait_visible''"
  shows "if wait_visible_without_target (PDict step)
         then \<exists>m. compile_wait_visible step compiled = Inl (ValueError m)
         else \<exists>new. compile_wait_visible step compiled = Inr new"
proof -
  from step_text_total[OF assms(1)] obtain t where t: "step_text step = Inr t" by blast
  from generate_selector_candidates_total[OF assms(2)] obtain cs
    where cs: "generate_selector_candidates step = Inr cs" by blast
  from t cs assms(3) show ?thesis
    by (simp add: compile_wait_visible_def wait_visible_without_target_def Let_def)
qed

lemma compile_other_total:
  assumes "params_is_dict step"
  shows "\<exists>new. compile_other step compiled = Inr new"
proof (cases "map_of step ''params''")
  case None
  then show ?thesis by (simp add: compile_other_def has_key_def)
next
  case (Some v)
  with assms obtain p where v: "v = PDict p"
    by (auto simp: params_is_dict_def split: pyval.splits)
  show ?thesis
  proof (cases "map_of p ''text''")
    case None
    with Some v show ?thesis
      by (simp add: compile_other_def has_key_def dict_get_def)
  next
    case (Some t)
    with \<open>map_of step ''params'' = Some v\<close> v show ?thesis
      by (simp add: compile_other_def has_key_def dict_get_def)
  qed
qed

lemma compile_iteration_cases:
  assumes "list_all well_typed_step raw" and "i < length raw"
  shows "if wait_visible_without_target (raw ! i)
         then \<exists>m. compile_iteration raw i = Inl (ValueError m)
         else \<exists>new. compile_iteration raw i = Inr new"
proof -
  from assms have typed: "well_typed_step (raw ! i)"
    and nxt: "i + 1 < length raw \<Longrightarrow> well_typed_step (raw ! (i + 1))"
    by (simp_all add: list_all_length)
  from typed obtain step where st: "raw ! i = PDict step"
    and t: "selector_is_string step" "url_is_string step" "params_is_dict step"
    by (auto simp: well_typed_step_def split: pyval.splits)
  define compiled where "compiled = copy_fields basic_fields step []"
  consider (click) "dict_get step ''type'' = PStr ''click''"
    | (expect) "dict_get step ''type'' = PStr ''expect_text''"
    | (wait) "dict_get step ''type'' = PStr ''wait_visible''"
    | (known) "dict_get step ''type'' \<in> {PStr ''fill'', PStr ''go'', PStr ''expect_visible'',
                                   PStr ''expect_url'', PStr ''wait_url''}"
    | (other) "dict_get step ''type'' \<notin> {PStr ''click'', PStr ''expect_text'', PStr ''wait_visible'',
         PStr ''fill'', PStr ''go'', PStr ''expect_visible'', PStr ''expect_url'', PStr ''wait_url''}"
    by blast
  then show ?thesis
  proof cases
    case click
    from compile_click_total[OF st t(1) nxt, of compiled] click st show ?thesis
      by (auto simp: compile_iteration_def Let_def compiled_def wait_visible_without_target_def)
  next
    case expect
    from compile_expect_text_total[OF t(3), of compiled] expect st show ?thesis
      by (auto simp: compile_iteration_def Let_def compiled_def wait_visible_without_target_def)
  next
    case wait
    from compile_wait_visible_cases[OF t(3) t(1) wait, of compiled] wait st show ?thesis
      by (auto simp: compile_iteration_def Let_def compiled_def)
  next
    case known
    with st show ?thesis
      by (auto simp: compile_iteration_def Let_def wait_visible_without_target_def)
  next
    case other
    from compile_other_total[OF t(3), of compiled] other st show ?thesis
      by (auto simp: compile_iteration_def Let_def compiled_def wait_visible_without_target_def)
  qed
qed

lemma compile_loop_cases:
  assumes "list_all well_typed_step raw" and "\<forall>i\<in>set is. i < length raw"
  shows "if list_ex (\<lambda>i. wait_visible_without_target (raw ! i)) is
         then \<exists>m. compile_loop raw is acc = Inl (ValueError m)
         else \<exists>out. compile_loop raw is acc = Inr out"
  using assms(2)
proof (induction "is" arbitrary: acc)
  case Nil
  then show ?case by simp
next
  case (Cons i "is")
  then have i: "i < length raw" and rest: "\<forall>i\<in>set is. i < length raw" by simp_all
  show ?case
  proof (cases "wait_visible_without_target (raw ! i)")
    case True
    with compile_iteration_cases[OF assms(1) i] show ?thesis by auto
  next
    case False
    with compile_iteration_cases[OF assms(1) i] obtain new
      where "compile_iteration raw i = Inr new" by auto
    with False Cons.IH[OF rest, of "acc @ new"] show ?thesis by simp
  qed
qed

lemma list_ex_upt_nth: "list_ex (\<lambda>i. P (xs ! i)) [0 ..< length xs] = list_ex P xs"
  unfolding list_ex_iff by (force simp: in_set_conv_nth)

text \<open>
  C3. The claim: for a raw scenario that is a dictionary whose steps are dictionaries,
  \<open>compile_scenario\<close> never raises. The \<open>wait_visible\<close> branch raises a \<^verbatim>\<open>ValueError\<close> for a
  step that has neither a text nor a selector, as its comment says it shall: a scenario of one
  such step is well typed and is not compiled.
\<close>

theorem compile_scenario_raises_counterexample:
  "well_typed_scenario [(''steps'', PList [PDict [(''type'', PStr ''wait_visible'')]])]
   \<and> compile_scenario (PDict [(''steps'', PList [PDict [(''type'', PStr ''wait_visible'')]])])
     = Inl (ValueError
         ''wait_visible step requires 'selector' or 'text' field: {'type': 'wait_visible'}'')"
  by code_simp

text \<open>
  C3, as amended. For every well-typed raw scenario \<open>compile_scenario\<close> returns the compiled
  scenario, unless one of its steps is a \<open>wait_visible\<close> step with neither a text nor a
  selector; then, and only then, it raises, and what it raises is a \<^verbatim>\<open>ValueError\<close>. A step of
  a type the compiler does not know never makes it raise.
\<close>

theorem compile_scenario_raises_for_wait_visible_only:
  assumes "well_typed_scenario raw_scenario"
  shows "if list_ex wait_visible_without_target (raw_steps_of raw_scenario)
         then \<exists>m. compile_scenario (PDict raw_scenario) = Inl (ValueError m)
         else \<exists>compiled. compile_scenario (PDict raw_scenario) = Inr compiled"
proof -
  from assms obtain raw meta where
    steps: "dict_get_default raw_scenario ''steps'' (PList []) = PList raw"
    and typed: "list_all well_typed_step raw"
    and meta: "dict_get_default raw_scenario ''_meta'' (PDict []) = PDict meta"
    by (auto simp: well_typed_scenario_def split: pyval.splits)
  have "\<forall>i\<in>set [0 ..< length raw]. i < length raw" by simp
  from compile_loop_cases[OF typed this, of "[]"] steps meta show ?thesis
    by (auto simp: compile_scenario_def compile_steps_def raw_steps_of_def list_ex_upt_nth)
qed

theorem compile_scenario_raises_for_wait_visible_only_witness:
  "well_typed_scenario
     [(''base_url'', PStr ''https://x.test''),
      (''steps'', PList [PDict [(''type'', PStr ''hover''), (''selector'', PStr ''#menu''),
                                (''params'', PDict [(''text'', PStr ''Menu'')])],
                         PDict [(''type'', PStr ''wait_visible''), (''selector'', PStr ''#menu'')]])]
   \<and> compile_scenario (PDict
     [(''base_url'', PStr ''https://x.test''),
      (''steps'', PList [PDict [(''type'', PStr ''hover''), (''selector'', PStr ''#menu''),
                                (''params'', PDict [(''text'', PStr ''Menu'')])],
                         PDict [(''type'', PStr ''wait_visible''), (''selector'', PStr ''#menu'')]])])
     = Inr (PDict
        [(''base_url'', PStr ''https://x.test''),
         (''steps'', PList [PDict [(''type'', PStr ''hover''), (''text'', PStr ''Menu'')],
                            PDict [(''type'', PStr ''wait_visible''), (''selector'', PStr ''#menu''),
                                   (''timeout'', PInt 15000)]]),
         (''_meta'', PDict [(''compiled'', PBool True), (''compiler_version'', PStr ''1.0.0'')])])"
proof -
  let ?sc = "[(''base_url'', PStr ''https://x.test''),
      (''steps'', PList [PDict [(''type'', PStr ''hover''), (''selector'', PStr ''#menu''),
                                (''params'', PDict [(''text'', PStr ''Menu'')])],
                         PDict [(''type'', PStr ''wait_visible''), (''selector'', PStr ''#menu'')]])]"
  have typed: "well_typed_scenario ?sc" by code_simp
  have none: "\<not> list_ex wait_visible_without_target (raw_steps_of ?sc)" by code_simp
  from compile_scenario_raises_for_wait_visible_only[OF typed] none
  obtain compiled where "compile_scenario (PDict ?sc) = Inr compiled" by auto
  moreover have "compile_scenario (PDict ?sc) = Inr (PDict
        [(''base_url'', PStr ''https://x.test''),
         (''steps'', PList [PDict [(''type'', PStr ''hover''), (''text'', PStr ''Menu'')],
                            PDict [(''type'', PStr ''wait_visible''), (''selector'', PStr ''#menu''),
                                   (''timeout'', PInt 15000)]]),
         (''_meta'', PDict [(''compiled'', PBool True), (''compiler_version'', PStr ''1.0.0'')])])"
    by code_simp
  ultimately show ?thesis using typed by simp
qed

subsection \<open>The click branch of \<open>run_step\<close>\<close>

lemma quoted_text_prefix:
  "py_startswith sel (''text='' @ [CHR 0x22]) \<Longrightarrow> py_startswith sel ''text=''"
  unfolding py_startswith_def by (metis append_prefixD)

lemma clickable_loop_strings:
  "clickable_loop (map PStr sels) selectors clickable_selectors
     = Inr (selectors @ sels,
            clickable_selectors @ filter (\<lambda>s. \<not> py_startswith s ''text='') sels)"
proof (induction sels arbitrary: selectors clickable_selectors)
  case Nil
  show ?case by simp
next
  case (Cons s sels)
  show ?case using quoted_text_prefix[of s] by (auto simp: Cons.IH)
qed

lemma clickable_selectors_of_strings:
  "clickable_selectors_of (map PStr sels)
     = Inr (if \<forall>s \<in> set sels. py_startswith s ''text='' then sels
            else filter (\<lambda>s. \<not> py_startswith s ''text='') sels)"
  unfolding clickable_selectors_of_def clickable_loop_strings
  by (auto simp: filter_empty_conv)

lemma click_loop_tried:
  "click_loop b page tgt step candidates last_error w = (last_error', w', tried)
     \<Longrightarrow> prefix tried candidates"
proof (induction candidates arbitrary: last_error w last_error' w' tried)
  case Nil
  then show ?case by simp
next
  case (Cons sel rest)
  from Cons.prems show ?case
    by (auto split: prod.splits sum.splits dest: Cons.IH)
qed

lemma step_selectors_list:
  "dict_get step ''selectors'' = PList (map PStr sels) \<Longrightarrow> sels \<noteq> []
     \<Longrightarrow> step_selectors step = Inr (map PStr sels)"
  unfolding step_selectors_def by (cases sels) simp_all

text \<open>
  C10. A \<open>click\<close> step with a non-empty list \<open>selectors\<close> of strings: the selectors a click
  is tried with are, in order, an initial part of the list without its candidates that begin
  with \<^verbatim>\<open>text=\<close>, and of the whole list only when every candidate begins with \<^verbatim>\<open>text=\<close>.
  So a candidate that begins with \<^verbatim>\<open>text=\<close> is clicked only when all candidates do.
\<close>

theorem click_skips_text_candidates:
  assumes sels: "dict_get step ''selectors'' = PList (map PStr sels)" and ne: "sels \<noteq> []"
    and run: "run_step_click b page step w = (result, w', tried)"
  shows "prefix tried (if \<forall>s \<in> set sels. py_startswith s ''text='' then sels
                       else filter (\<lambda>s. \<not> py_startswith s ''text='') sels)
         \<and> ((\<exists>s \<in> set tried. py_startswith s ''text='')
               \<longrightarrow> (\<forall>s \<in> set sels. py_startswith s ''text=''))"
proof -
  define clickable where "clickable = (if \<forall>s \<in> set sels. py_startswith s ''text='' then sels
                    else filter (\<lambda>s. \<not> py_startswith s ''text='') sels)"
  have filtered: "clickable_selectors_of (map PStr sels) = Inr clickable"
    unfolding clickable_def by (rule clickable_selectors_of_strings)
  have tried: "prefix tried clickable"
  proof (cases "resolve_target b page step False w")
    case (Pair r w1)
    show ?thesis
    proof (cases r)
      case (Inl e)
      with run Pair show ?thesis by (simp add: run_step_click_def)
    next
      case (Inr tgt)
      obtain le w2 tr where loop: "click_loop b page tgt step clickable None w1 = (le, w2, tr)"
        by (cases "click_loop b page tgt step clickable None w1") auto
      from run Pair Inr loop have "tried = tr"
        by (auto simp: run_step_click_def step_selectors_list[OF sels ne] filtered
            split: option.splits)
      with click_loop_tried[OF loop] show ?thesis by simp
    qed
  qed
  have "\<forall>s \<in> set sels. py_startswith s ''text=''"
    if "\<exists>s \<in> set tried. py_startswith s ''text=''"
  proof -
    from that obtain s where s: "s \<in> set tried" "py_startswith s ''text=''" by blast
    from tried s(1) have "s \<in> set clickable" using set_mono_prefix by blast
    with s(2) show ?thesis unfolding clickable_def by (auto split: if_splits)
  qed
  with tried show ?thesis unfolding clickable_def by blast
qed

theorem click_skips_text_candidates_witness:
  \<open>snd (snd (run_step_click sim_browser 0
     [(''type'', PStr ''click''),
      (''selectors'', PList [PStr ''text="Hi"'', PStr ''#a'', PStr ''#b''])]
     start_page)) = [''#a'']
   \<and> prefix [''#a'']
        (if \<forall>s \<in> set [''text="Hi"'', ''#a'', ''#b'']. py_startswith s ''text=''
         then [''text="Hi"'', ''#a'', ''#b'']
         else filter (\<lambda>s. \<not> py_startswith s ''text='') [''text="Hi"'', ''#a'', ''#b''])\<close>
proof -
  let ?step = \<open>[(''type'', PStr ''click''),
                 (''selectors'', PList [PStr ''text="Hi"'', PStr ''#a'', PStr ''#b''])]\<close>
  have sels: \<open>dict_get ?step ''selectors'' = PList (map PStr [''text="Hi"'', ''#a'', ''#b''])\<close>
    by code_simp
  have ne: \<open>[''text="Hi"'', ''#a'', ''#b''] \<noteq> []\<close>
    by simp
  have run: "run_step_click sim_browser 0 ?step start_page = (Inr 0, start_page, [''#a''])"
    by code_simp
  have tried: "snd (snd (run_step_click sim_browser 0 ?step start_page)) = [''#a'']"
    by (simp only: run snd_conv)
  from click_skips_text_candidates[OF sels ne run] tried show ?thesis
    by blast
qed

subsection \<open>Waiting for a location\<close>



subsection \<open>Clicks that open a page\<close>









subsection \<open>A failing step ends the run\<close>












end
